theory Spec2Isabelle
  imports Main
begin

section \<open>Data model of server.js\<close>

text \<open>
  A player object of \<^verbatim>\<open>room.players\<close>. The field \<^verbatim>\<open>id\<close> of the source is \<open>pid\<close>
  here (\<open>id\<close> is the identity function of HOL). Balances, the pool, the round and the
  bid counter are JavaScript numbers that the handlers only add, subtract and compare;
  they are integers here.
\<close>

record player =
  pid :: string
  socketId :: string
  name :: string
  balance :: int
  isCreator :: bool
  packed :: bool

text \<open>
  An entry of \<^verbatim>\<open>room.gameLog\<close>. The source renders each entry as a string with the
  wall-clock time in front; the entry is kept here as the data the string is built from.
\<close>

datatype log_entry =
    LogCreated string
  | LogReconnected string
  | LogJoined string
  | LogBid string int
  | LogPacked string
  | LogAutoWin string int
  | LogReset string int int
  | LogWin string int string
  | LogRemoved string string
  | LogTurnChanged string string
  | LogLeft string
  | LogLeftTimeout string

record room =
  code :: string
  creator :: string
  startingBalance :: int
  players :: "player list"
  pool :: int
  currentTurn :: nat
  round :: int
  gameLog :: "log_entry list"
  totalBids :: int

text \<open>The per-connection fields \<^verbatim>\<open>socket.id\<close>, \<^verbatim>\<open>socket.playerId\<close>, \<^verbatim>\<open>socket.roomCode\<close>.\<close>

record socket =
  sid :: string
  playerId :: "string option"
  roomCode :: "string option"

text \<open>The global \<^verbatim>\<open>rooms\<close> map.\<close>

type_synonym rooms = "string \<rightharpoonup> room"

subsection \<open>JavaScript helpers\<close>

text \<open>\<^verbatim>\<open>!x\<close> for a value that is a string, \<^verbatim>\<open>null\<close> or \<^verbatim>\<open>undefined\<close>.\<close>

definition falsy :: "string option \<Rightarrow> bool" where
  "falsy x = (case x of None \<Rightarrow> True | Some s \<Rightarrow> s = [])"

text \<open>\<^verbatim>\<open>Array.prototype.findIndex\<close>; \<open>None\<close> is the result \<^verbatim>\<open>-1\<close>.\<close>

fun findIndex :: "('a \<Rightarrow> bool) \<Rightarrow> 'a list \<Rightarrow> nat option" where
  "findIndex P [] = None"
| "findIndex P (x # xs) =
     (if P x then Some 0 else (case findIndex P xs of None \<Rightarrow> None | Some i \<Rightarrow> Some (Suc i)))"

text \<open>\<^verbatim>\<open>xs.splice(i, 1)\<close> for an index in range.\<close>

definition splice1 :: "nat \<Rightarrow> 'a list \<Rightarrow> 'a list" where
  "splice1 i xs = take i xs @ drop (Suc i) xs"

text \<open>
  \<^verbatim>\<open>String.prototype.trim\<close> and \<^verbatim>\<open>toLowerCase\<close> on ASCII text (the white space and
  the letters beyond ASCII are not modelled).
\<close>

definition is_space :: "char \<Rightarrow> bool" where
  "is_space c = (c \<in> set [CHR '' '', CHR 0x09, CHR 0x0A, CHR 0x0B, CHR 0x0C, CHR 0x0D])"

definition trim :: "string \<Rightarrow> string" where
  "trim s = rev (dropWhile is_space (rev (dropWhile is_space s)))"

definition lower_char :: "char \<Rightarrow> char" where
  "lower_char c =
     (let n = (of_char c :: nat) in if 65 \<le> n \<and> n \<le> 90 then char_of (n + 32) else c)"

definition toLowerCase :: "string \<Rightarrow> string" where
  "toLowerCase s = map lower_char s"

text \<open>\<^verbatim>\<open>!creatorName || !creatorName.trim()\<close>.\<close>

definition blank :: "string option \<Rightarrow> bool" where
  "blank x = (case x of None \<Rightarrow> True | Some s \<Rightarrow> s = [] \<or> trim s = [])"

subsection \<open>addToGameLog\<close>

text \<open>Push, then keep the last 50 entries.\<close>

definition addToGameLog :: "room \<Rightarrow> log_entry \<Rightarrow> room" where
  "addToGameLog r m =
     (let l = gameLog r @ [m]
      in r\<lparr>gameLog := (if length l > 50 then drop (length l - 50) l else l)\<rparr>)"

section \<open>Turn scheduling\<close>

text \<open>
  The \<^verbatim>\<open>while\<close> loop shared by \<^verbatim>\<open>moveToNextActivePlayer\<close> and
  \<^verbatim>\<open>ensureActiveTurn\<close>:
  \<^verbatim>\<open>while (room.players[room.currentTurn].packed && attempts < totalPlayers)\<close>.
  It returns the turn index and the attempt counter at exit. Both callers enter it with
  an index below the number of players (a value \<^verbatim>\<open>mod totalPlayers\<close>, or an index whose
  player was just read), and every step takes the index \<^verbatim>\<open>mod totalPlayers\<close>, so no
  read is out of range.
\<close>

function skipPacked :: "player list \<Rightarrow> nat \<Rightarrow> nat \<Rightarrow> nat \<times> nat" where
  "skipPacked ps turn attempts =
     (if packed (ps ! turn) \<and> attempts < length ps
      then skipPacked ps ((turn + 1) mod length ps) (attempts + 1)
      else (turn, attempts))"
  by pat_completeness auto
termination
  by (relation "measure (\<lambda>(ps, turn, attempts). length ps - attempts)") auto

declare skipPacked.simps [simp del]

text \<open>
  The \<^verbatim>\<open>for\<close> loop that follows it when \<^verbatim>\<open>attempts >= totalPlayers\<close>: the first
  player that is not packed gets the turn, and the turn stays if there is none.
\<close>

definition firstActiveOr :: "player list \<Rightarrow> nat \<Rightarrow> nat" where
  "firstActiveOr ps turn =
     (case findIndex (\<lambda>p. \<not> packed p) ps of None \<Rightarrow> turn | Some i \<Rightarrow> i)"

definition moveToNextActivePlayer :: "room \<Rightarrow> room" where
  "moveToNextActivePlayer r =
     (if players r = [] then r
      else
        let totalPlayers = length (players r);
            (turn, attempts) =
               skipPacked (players r) ((currentTurn r + 1) mod totalPlayers) 0
        in r\<lparr>currentTurn :=
               (if attempts \<ge> totalPlayers then firstActiveOr (players r) turn else turn)\<rparr>)"

text \<open>
  \<^verbatim>\<open>ensureActiveTurn\<close>: \<^verbatim>\<open>currentPlayer && currentPlayer.packed\<close> is false when the
  turn index is out of range (\<^verbatim>\<open>currentPlayer\<close> is \<^verbatim>\<open>undefined\<close>).
\<close>

definition ensureActiveTurn :: "room \<Rightarrow> room" where
  "ensureActiveTurn r =
     (if players r = [] then r
      else if currentTurn r < length (players r) \<and> packed (players r ! currentTurn r)
      then
        let totalPlayers = length (players r);
            (turn, attempts) = skipPacked (players r) (currentTurn r) 0
        in r\<lparr>currentTurn :=
               (if attempts \<ge> totalPlayers then firstActiveOr (players r) turn else turn)\<rparr>
      else r)"

section \<open>Requests, replies and \<^verbatim>\<open>parseInt\<close>\<close>

text \<open>
  The value a request carries in \<^verbatim>\<open>startingBalance\<close>: absent, an integral number, or
  a string. \<^verbatim>\<open>parseInt\<close> skips leading white space, reads an optional sign and an
  optional \<^verbatim>\<open>0x\<close> prefix, then the longest run of digits of the radix; \<open>None\<close> is
  \<^verbatim>\<open>NaN\<close>. Numbers are mathematical integers here (no rounding to a double).
\<close>

datatype js_value = Undefined | Num int | Str string

definition digitVal :: "char \<Rightarrow> nat option" where
  "digitVal c =
     (let n = (of_char c :: nat)
      in if 48 \<le> n \<and> n \<le> 57 then Some (n - 48)
         else if 97 \<le> n \<and> n \<le> 102 then Some (n - 87)
         else if 65 \<le> n \<and> n \<le> 70 then Some (n - 55)
         else None)"

definition isDigit :: "nat \<Rightarrow> char \<Rightarrow> bool" where
  "isDigit radix c = (case digitVal c of None \<Rightarrow> False | Some d \<Rightarrow> d < radix)"

fun digitsValue :: "nat \<Rightarrow> nat \<Rightarrow> string \<Rightarrow> nat" where
  "digitsValue radix acc [] = acc"
| "digitsValue radix acc (c # cs) =
     digitsValue radix (acc * radix + (case digitVal c of None \<Rightarrow> 0 | Some d \<Rightarrow> d)) cs"

definition parseIntStr :: "string \<Rightarrow> int option" where
  "parseIntStr s =
     (let s1 = dropWhile is_space s;
          neg = (take 1 s1 = ''-'');
          s2 = (if take 1 s1 = ''-'' \<or> take 1 s1 = ''+'' then drop 1 s1 else s1);
          hex = (take 2 s2 = ''0x'' \<or> take 2 s2 = ''0X'');
          radix = (if hex then 16 else 10);
          s3 = (if hex then drop 2 s2 else s2);
          z = takeWhile (isDigit radix) s3
      in if z = [] then None
         else Some ((if neg then - 1 else 1) * int (digitsValue radix 0 z)))"

fun parseInt :: "js_value \<Rightarrow> int option" where
  "parseInt Undefined = None"
| "parseInt (Num n) = Some n"
| "parseInt (Str s) = parseIntStr s"

text \<open>\<^verbatim>\<open>parseInt(startingBalance) || 1000\<close>: \<^verbatim>\<open>NaN\<close> and 0 are falsy.\<close>

definition balanceOrDefault :: "js_value \<Rightarrow> int" where
  "balanceOrDefault v = (case parseInt v of None \<Rightarrow> 1000 | Some n \<Rightarrow> if n = 0 then 1000 else n)"

text \<open>
  The messages of the \<^verbatim>\<open>error\<close> and failed \<^verbatim>\<open>roomRejoined\<close> replies, one constructor
  per message text of the source.
\<close>

datatype error =
    EnterName              \<comment> \<open>Please enter your name\<close>
  | InvalidRoomCode        \<comment> \<open>Please enter a valid 4-digit room code\<close>
  | JoinRoomNotFound       \<comment> \<open>Room not found. Please check the room code.\<close>
  | NameExists             \<comment> \<open>A player with this name already exists in the room\<close>
  | NotInRoom              \<comment> \<open>You are not in a room\<close>
  | RoomNotFound           \<comment> \<open>Room not found\<close>
  | PlayerNotFound         \<comment> \<open>Player not found\<close>
  | NotYourTurn            \<comment> \<open>It's not your turn!\<close>
  | InvalidBid             \<comment> \<open>Please enter a valid bid amount\<close>
  | InsufficientBalance    \<comment> \<open>Insufficient balance!\<close>
  | AlreadyPacked          \<comment> \<open>You have already packed\<close>
  | PackNotYourTurn        \<comment> \<open>You can only pack during your turn\<close>
  | OnlyCreatorReset       \<comment> \<open>Only the room creator can reset the pool\<close>
  | OnlyHostDeclare        \<comment> \<open>Only the host can declare a winner\<close>
  | WinnerNotFound         \<comment> \<open>Winner not found\<close>
  | PoolEmpty              \<comment> \<open>Pool is empty. No winnings to distribute.\<close>
  | OnlyHostRemove         \<comment> \<open>Only the host can remove players\<close>
  | HostCannotRemoveSelf   \<comment> \<open>Host cannot remove themselves. Use Leave Room instead.\<close>
  | OnlyHostChangeTurn     \<comment> \<open>Only the host can change turn\<close>
  | TurnTargetPacked       \<comment> \<open>Cannot set turn to a packed player\<close>
  | InvalidRejoinData      \<comment> \<open>Invalid rejoin data\<close>
  | RejoinPlayerNotFound   \<comment> \<open>Player not found in room\<close>

text \<open>
  What a handler emits. \<open>Throws\<close> is the uncaught \<^verbatim>\<open>TypeError\<close> of reading a field of
  \<^verbatim>\<open>undefined\<close>. Room-wide events carry the room code they are sent to.
\<close>

datatype emit =
    Error error
  | Throws
  | RoomCreated string
  | RoomRejoined "error option"
  | RoomJoined string
  | BidPlaced string int
  | WinnerDeclared string int
  | PlayerPacked string
  | PoolReset string int
  | PlayerRemoved string
  | PlayerLeft string
  | TurnChanged string
  | RoomUpdate string

section \<open>The handlers\<close>

subsection \<open>createRoom\<close>

text \<open>
  \<open>genCode\<close> and \<open>genId\<close> are the values \<^verbatim>\<open>generateRoomCode()\<close> and
  \<^verbatim>\<open>generatePlayerId()\<close> return in this call (both read \<^verbatim>\<open>Math.random\<close>).
\<close>

definition createRoom ::
  "rooms \<Rightarrow> socket \<Rightarrow> string option \<Rightarrow> js_value \<Rightarrow> string \<Rightarrow> string
     \<Rightarrow> emit list \<times> rooms \<times> socket" where
  "createRoom rs sock creatorName startingBal genCode genId =
     (if blank creatorName then ([Error EnterName], rs, sock)
      else
        let nm = the creatorName;
            r = \<lparr>code = genCode, creator = nm,
                 startingBalance = balanceOrDefault startingBal,
                 players = [\<lparr>pid = genId, socketId = sid sock, name = nm,
                             balance = balanceOrDefault startingBal,
                             isCreator = True, packed = False\<rparr>],
                 pool = 0, currentTurn = 0, round = 1, gameLog = [], totalBids = 0\<rparr>
        in ([RoomCreated genCode],
            rs(genCode \<mapsto> addToGameLog r (LogCreated nm)),
            sock\<lparr>playerId := Some genId, roomCode := Some genCode\<rparr>))"

subsection \<open>rejoinRoom\<close>

definition rejoinRoom ::
  "rooms \<Rightarrow> socket \<Rightarrow> string option \<Rightarrow> string option \<Rightarrow> string option
     \<Rightarrow> emit list \<times> rooms \<times> socket" where
  "rejoinRoom rs sock rCode pId pName =
     (if falsy rCode \<or> falsy pId \<or> falsy pName
      then ([RoomRejoined (Some InvalidRejoinData)], rs, sock)
      else
        case rs (the rCode) of
          None \<Rightarrow> ([RoomRejoined (Some RoomNotFound)], rs, sock)
        | Some r \<Rightarrow>
            (case findIndex (\<lambda>p. pid p = the pId) (players r) of
               Some i \<Rightarrow>
                 ([RoomRejoined None, RoomUpdate (the rCode)],
                  rs(the rCode \<mapsto>
                       addToGameLog
                         (r\<lparr>players := (players r)[i := (players r ! i)\<lparr>socketId := sid sock\<rparr>]\<rparr>)
                         (LogReconnected (the pName))),
                  sock\<lparr>playerId := pId, roomCode := rCode\<rparr>)
             | None \<Rightarrow> ([RoomRejoined (Some RejoinPlayerNotFound)], rs, sock)))"

subsection \<open>joinRoom\<close>

definition joinRoom ::
  "rooms \<Rightarrow> socket \<Rightarrow> string option \<Rightarrow> string option \<Rightarrow> string
     \<Rightarrow> emit list \<times> rooms \<times> socket" where
  "joinRoom rs sock pName rCode genId =
     (if blank pName then ([Error EnterName], rs, sock)
      else if falsy rCode \<or> length (the rCode) \<noteq> 4 then ([Error InvalidRoomCode], rs, sock)
      else
        case rs (the rCode) of
          None \<Rightarrow> ([Error JoinRoomNotFound], rs, sock)
        | Some r \<Rightarrow>
            if list_ex (\<lambda>p. toLowerCase (name p) = toLowerCase (the pName)) (players r)
            then ([Error NameExists], rs, sock)
            else
              let newPlayer = \<lparr>pid = genId, socketId = sid sock, name = the pName,
                               balance = startingBalance r, isCreator = False, packed = False\<rparr>;
                  r1 = addToGameLog (r\<lparr>players := players r @ [newPlayer]\<rparr>)
                         (LogJoined (the pName))
              in ([RoomJoined (the rCode), RoomUpdate (the rCode)],
                  rs(the rCode \<mapsto> ensureActiveTurn r1),
                  sock\<lparr>playerId := Some genId, roomCode := rCode\<rparr>))"

subsection \<open>placeBid\<close>

text \<open>
  \<^verbatim>\<open>room.players.find(p => p.id === playerId)\<close> yields the first player object with
  that id; the handler then writes to its fields. The model looks the index up, so that
  the write lands in the list. The amount is absent (\<open>None\<close>) or an integer.
\<close>

definition placeBid :: "rooms \<Rightarrow> socket \<Rightarrow> int option \<Rightarrow> emit list \<times> rooms" where
  "placeBid rs sock amount =
     (if falsy (roomCode sock) \<or> falsy (playerId sock) then ([Error NotInRoom], rs)
      else
        case rs (the (roomCode sock)) of
          None \<Rightarrow> ([Error RoomNotFound], rs)
        | Some r \<Rightarrow>
            (case findIndex (\<lambda>p. pid p = the (playerId sock)) (players r) of
               None \<Rightarrow> ([Error PlayerNotFound], rs)
             | Some i \<Rightarrow>
                 if \<not> currentTurn r < length (players r) then ([Throws], rs)
                 else if pid (players r ! currentTurn r) \<noteq> the (playerId sock)
                 then ([Error NotYourTurn], rs)
                 else if amount = None \<or> the amount = 0 \<or> the amount \<le> 0
                 then ([Error InvalidBid], rs)
                 else if the amount > balance (players r ! i)
                 then ([Error InsufficientBalance], rs)
                 else
                   let player = players r ! i;
                       r1 = r\<lparr>players := (players r)[i := player\<lparr>balance := balance player - the amount\<rparr>],
                              pool := pool r + the amount,
                              totalBids := totalBids r + 1\<rparr>;
                       r2 = addToGameLog r1 (LogBid (name player) (the amount))
                   in ([BidPlaced (the (roomCode sock)) (the amount),
                        RoomUpdate (the (roomCode sock))],
                       rs(the (roomCode sock) \<mapsto> moveToNextActivePlayer r2))))"

subsection \<open>packCards\<close>

text \<open>
  Lines 296 to 326: the settlement when at most one player is left unpacked.
  \<^verbatim>\<open>activePlayers[0]\<close> is the first unpacked player object of \<^verbatim>\<open>room.players\<close>; its
  index is looked up so that the credit lands in the list. The result says whether
  \<^verbatim>\<open>winnerDeclared\<close> was emitted, and with which amount.
\<close>

definition packSettle :: "room \<Rightarrow> int option \<times> room" where
  "packSettle r =
     (let activePlayers = filter (\<lambda>p. \<not> packed p) (players r)
      in if length activePlayers \<le> 1 then
           (if length activePlayers = 1 then
              (case findIndex (\<lambda>p. \<not> packed p) (players r) of
                 None \<Rightarrow> (None, r)
               | Some w \<Rightarrow>
                   let winner = players r ! w;
                       winAmount = pool r;
                       r1 = r\<lparr>players := (players r)[w := winner\<lparr>balance := balance winner + winAmount\<rparr>]\<rparr>;
                       r2 = addToGameLog r1 (LogAutoWin (name winner) winAmount);
                       r3 = r2\<lparr>pool := 0, round := round r2 + 1, totalBids := 0\<rparr>;
                       r4 = r3\<lparr>currentTurn :=
                              (case findIndex (\<lambda>p. pid p = pid winner) (players r3) of
                                 Some k \<Rightarrow> k | None \<Rightarrow> 0)\<rparr>
                   in (Some winAmount, r4\<lparr>players := map (\<lambda>p. p\<lparr>packed := False\<rparr>) (players r4)\<rparr>))
            else (None, r))
         else (None, r))"

definition packCards :: "rooms \<Rightarrow> socket \<Rightarrow> emit list \<times> rooms" where
  "packCards rs sock =
     (if falsy (roomCode sock) \<or> falsy (playerId sock) then ([Error NotInRoom], rs)
      else
        case rs (the (roomCode sock)) of
          None \<Rightarrow> ([Error RoomNotFound], rs)
        | Some r \<Rightarrow>
            (case findIndex (\<lambda>p. pid p = the (playerId sock)) (players r) of
               None \<Rightarrow> ([Error PlayerNotFound], rs)
             | Some playerIndex \<Rightarrow>
                 if packed (players r ! playerIndex) then ([Error AlreadyPacked], rs)
                 else if currentTurn r \<noteq> playerIndex then ([Error PackNotYourTurn], rs)
                 else
                   let player = players r ! playerIndex;
                       r1 = r\<lparr>players := (players r)[playerIndex := player\<lparr>packed := True\<rparr>]\<rparr>;
                       r2 = addToGameLog r1 (LogPacked (name player));
                       r3 = moveToNextActivePlayer r2;
                       (won, r4) = packSettle r3
                   in ((case won of None \<Rightarrow> []
                          | Some a \<Rightarrow> [WinnerDeclared (the (roomCode sock)) a])
                       @ [PlayerPacked (the (roomCode sock)), RoomUpdate (the (roomCode sock))],
                       rs(the (roomCode sock) \<mapsto> ensureActiveTurn r4))))"

subsection \<open>resetPool\<close>

definition resetPool :: "rooms \<Rightarrow> socket \<Rightarrow> emit list \<times> rooms" where
  "resetPool rs sock =
     (if falsy (roomCode sock) \<or> falsy (playerId sock) then ([Error NotInRoom], rs)
      else
        case rs (the (roomCode sock)) of
          None \<Rightarrow> ([Error RoomNotFound], rs)
        | Some r \<Rightarrow>
            (case find (\<lambda>p. pid p = the (playerId sock)) (players r) of
               None \<Rightarrow> ([Error OnlyCreatorReset], rs)
             | Some player \<Rightarrow>
                 if \<not> isCreator player then ([Error OnlyCreatorReset], rs)
                 else
                   let finalPoolAmount = pool r;
                       r1 = r\<lparr>pool := 0, round := 1, totalBids := 0, currentTurn := 0\<rparr>;
                       r2 = r1\<lparr>players :=
                              map (\<lambda>p. p\<lparr>balance := startingBalance r1, packed := False\<rparr>)
                                (players r1)\<rparr>;
                       r3 = addToGameLog r2
                              (LogReset (name player) (round r2) (startingBalance r2))
                   in ([PoolReset (the (roomCode sock)) finalPoolAmount,
                        RoomUpdate (the (roomCode sock))],
                       rs(the (roomCode sock) \<mapsto> r3))))"

subsection \<open>declareWinner\<close>

text \<open>
  The ids a request names (\<^verbatim>\<open>winnerId\<close>, \<^verbatim>\<open>playerIdToRemove\<close>, \<^verbatim>\<open>newTurnPlayerId\<close>) may
  be absent; an absent id equals no player's id.
\<close>

definition declareWinner :: "rooms \<Rightarrow> socket \<Rightarrow> string option \<Rightarrow> emit list \<times> rooms" where
  "declareWinner rs sock winnerId =
     (if falsy (roomCode sock) \<or> falsy (playerId sock) then ([Error NotInRoom], rs)
      else
        case rs (the (roomCode sock)) of
          None \<Rightarrow> ([Error RoomNotFound], rs)
        | Some r \<Rightarrow>
            (case find (\<lambda>p. pid p = the (playerId sock)) (players r) of
               None \<Rightarrow> ([Error OnlyHostDeclare], rs)
             | Some hostPlayer \<Rightarrow>
                 if \<not> isCreator hostPlayer then ([Error OnlyHostDeclare], rs)
                 else
                   (case findIndex (\<lambda>p. Some (pid p) = winnerId) (players r) of
                      None \<Rightarrow> ([Error WinnerNotFound], rs)
                    | Some w \<Rightarrow>
                        if pool r \<le> 0 then ([Error PoolEmpty], rs)
                        else
                          let winner = players r ! w;
                              winAmount = pool r;
                              r1 = r\<lparr>players := (players r)[w := winner\<lparr>balance := balance winner + winAmount\<rparr>]\<rparr>;
                              r2 = addToGameLog r1 (LogWin (name winner) winAmount (name hostPlayer));
                              r3 = r2\<lparr>pool := 0, round := round r2 + 1, totalBids := 0\<rparr>;
                              r4 = r3\<lparr>currentTurn :=
                                     (case findIndex (\<lambda>p. pid p = pid winner) (players r3) of
                                        Some k \<Rightarrow> k | None \<Rightarrow> 0)\<rparr>;
                              r5 = r4\<lparr>players := map (\<lambda>p. p\<lparr>packed := False\<rparr>) (players r4)\<rparr>
                          in ([WinnerDeclared (the (roomCode sock)) winAmount,
                               RoomUpdate (the (roomCode sock))],
                              rs(the (roomCode sock) \<mapsto> r5)))))"

subsection \<open>removePlayer\<close>

definition removePlayer :: "rooms \<Rightarrow> socket \<Rightarrow> string option \<Rightarrow> emit list \<times> rooms" where
  "removePlayer rs sock playerIdToRemove =
     (if falsy (roomCode sock) \<or> falsy (playerId sock) then ([Error NotInRoom], rs)
      else
        case rs (the (roomCode sock)) of
          None \<Rightarrow> ([Error RoomNotFound], rs)
        | Some r \<Rightarrow>
            (case find (\<lambda>p. pid p = the (playerId sock)) (players r) of
               None \<Rightarrow> ([Error OnlyHostRemove], rs)
             | Some hostPlayer \<Rightarrow>
                 if \<not> isCreator hostPlayer then ([Error OnlyHostRemove], rs)
                 else
                   (case find (\<lambda>p. Some (pid p) = playerIdToRemove) (players r) of
                      None \<Rightarrow> ([Error PlayerNotFound], rs)
                    | Some playerToRemove \<Rightarrow>
                        if isCreator playerToRemove then ([Error HostCannotRemoveSelf], rs)
                        else
                          (case findIndex (\<lambda>p. Some (pid p) = playerIdToRemove) (players r) of
                             None \<Rightarrow> ([], rs)
                           | Some playerIndex \<Rightarrow>
                               let removed = players r ! playerIndex;
                                   r1 = r\<lparr>players := splice1 playerIndex (players r)\<rparr>;
                                   r2 = addToGameLog r1 (LogRemoved (name removed) (name hostPlayer));
                                   r3 = (if currentTurn r2 \<ge> length (players r2)
                                         then r2\<lparr>currentTurn := 0\<rparr>
                                         else if playerIndex < currentTurn r2
                                         then r2\<lparr>currentTurn := currentTurn r2 - 1\<rparr>
                                         else r2)
                               in ((if socketId removed \<noteq> [] then [PlayerRemoved (socketId removed)]
                                    else [])
                                   @ [PlayerLeft (the (roomCode sock)), RoomUpdate (the (roomCode sock))],
                                   rs(the (roomCode sock) \<mapsto> r3))))))"

subsection \<open>changeTurn\<close>

definition changeTurn :: "rooms \<Rightarrow> socket \<Rightarrow> string option \<Rightarrow> emit list \<times> rooms" where
  "changeTurn rs sock newTurnPlayerId =
     (if falsy (roomCode sock) \<or> falsy (playerId sock) then ([Error NotInRoom], rs)
      else
        case rs (the (roomCode sock)) of
          None \<Rightarrow> ([Error RoomNotFound], rs)
        | Some r \<Rightarrow>
            (case find (\<lambda>p. pid p = the (playerId sock)) (players r) of
               None \<Rightarrow> ([Error OnlyHostChangeTurn], rs)
             | Some hostPlayer \<Rightarrow>
                 if \<not> isCreator hostPlayer then ([Error OnlyHostChangeTurn], rs)
                 else
                   (case findIndex (\<lambda>p. Some (pid p) = newTurnPlayerId) (players r) of
                      None \<Rightarrow> ([Error PlayerNotFound], rs)
                    | Some newTurnPlayerIndex \<Rightarrow>
                        if packed (players r ! newTurnPlayerIndex)
                        then ([Error TurnTargetPacked], rs)
                        else
                          let r1 = r\<lparr>currentTurn := newTurnPlayerIndex\<rparr>;
                              r2 = addToGameLog r1
                                     (LogTurnChanged (name (players r ! newTurnPlayerIndex))
                                        (name hostPlayer))
                          in ([TurnChanged (the (roomCode sock)), RoomUpdate (the (roomCode sock))],
                              rs(the (roomCode sock) \<mapsto> r2)))))"

subsection \<open>leaveRoom and the disconnect timeout\<close>

text \<open>
  The removal both paths share (lines 603 to 632 and 664 to 693, the same code twice):
  splice the player out, hand the creator flag to the first remaining player, delete an
  empty room, otherwise reset a turn index that fell off the end.
\<close>

definition removeAt :: "rooms \<Rightarrow> string \<Rightarrow> room \<Rightarrow> nat \<Rightarrow> log_entry \<Rightarrow> emit list \<times> rooms" where
  "removeAt rs rc r playerIndex entry =
     (let wasCreator = isCreator (players r ! playerIndex);
          r1 = addToGameLog (r\<lparr>players := splice1 playerIndex (players r)\<rparr>) entry;
          r2 = (if wasCreator \<and> length (players r1) > 0
                then r1\<lparr>players := (players r1)[0 := (players r1 ! 0)\<lparr>isCreator := True\<rparr>],
                        creator := name (players r1 ! 0)\<rparr>
                else r1)
      in if length (players r2) = 0 then ([], rs(rc := None))
         else ([PlayerLeft rc, RoomUpdate rc],
               rs(rc \<mapsto> (if currentTurn r2 \<ge> length (players r2)
                           then r2\<lparr>currentTurn := 0\<rparr> else r2))))"

definition leaveRoom :: "rooms \<Rightarrow> socket \<Rightarrow> emit list \<times> rooms \<times> socket" where
  "leaveRoom rs sock =
     (if falsy (roomCode sock) \<or> falsy (playerId sock) then ([], rs, sock)
      else
        case rs (the (roomCode sock)) of
          None \<Rightarrow> ([], rs, sock)
        | Some r \<Rightarrow>
            (case findIndex (\<lambda>p. pid p = the (playerId sock)) (players r) of
               None \<Rightarrow> ([], rs, sock\<lparr>playerId := None, roomCode := None\<rparr>)
             | Some playerIndex \<Rightarrow>
                 let (es, rs') = removeAt rs (the (roomCode sock)) r playerIndex
                                   (LogLeft (name (players r ! playerIndex)))
                 in (es, rs', sock\<lparr>playerId := None, roomCode := None\<rparr>)))"

text \<open>
  The callback the \<^verbatim>\<open>disconnect\<close> handler schedules for 30 seconds later. It closes
  over the room code, the id of the player found at disconnect and the socket id of the
  connection that dropped.
\<close>

definition disconnectTimeout :: "rooms \<Rightarrow> string \<Rightarrow> string \<Rightarrow> string \<Rightarrow> emit list \<times> rooms" where
  "disconnectTimeout rs rc playerId0 socketId0 =
     (case rs rc of
        None \<Rightarrow> ([], rs)
      | Some currentRoom \<Rightarrow>
          (case find (\<lambda>p. pid p = playerId0) (players currentRoom) of
             None \<Rightarrow> ([], rs)
           | Some currentPlayer \<Rightarrow>
               if socketId currentPlayer = socketId0 then
                 (case findIndex (\<lambda>p. pid p = playerId0) (players currentRoom) of
                    None \<Rightarrow> ([], rs)
                  | Some finalPlayerIndex \<Rightarrow>
                      removeAt rs rc currentRoom finalPlayerIndex
                        (LogLeftTimeout (name (players currentRoom ! finalPlayerIndex))))
               else ([], rs)))"

section \<open>The server as a state machine\<close>

text \<open>
  A request arrives on a connection. The server state is the \<^verbatim>\<open>rooms\<close> map and the
  fields of every socket object; a connection never used has no player and no room.
  \<open>DisconnectTimeout\<close> is the firing of a timer of that connection, with the room code
  and player id it closed over.
\<close>

datatype request =
    CreateRoom "string option" js_value string string
  | RejoinRoom "string option" "string option" "string option"
  | JoinRoom "string option" "string option" string
  | PlaceBid "int option"
  | PackCards
  | ResetPool
  | DeclareWinner "string option"
  | RemovePlayer "string option"
  | ChangeTurn "string option"
  | LeaveRoom
  | DisconnectTimeout string string

type_synonym server = "rooms \<times> (string \<Rightarrow> socket)"

definition newSocket :: "string \<Rightarrow> socket" where
  "newSocket s = \<lparr>sid = s, playerId = None, roomCode = None\<rparr>"

definition serverStart :: server where
  "serverStart = (Map.empty, newSocket)"

fun handle :: "server \<Rightarrow> string \<Rightarrow> request \<Rightarrow> emit list \<times> server" where
  "handle (rs, ss) s (CreateRoom n b c i) =
     (let (es, rs', k) = createRoom rs (ss s) n b c i in (es, rs', ss(s := k)))"
| "handle (rs, ss) s (RejoinRoom c i n) =
     (let (es, rs', k) = rejoinRoom rs (ss s) c i n in (es, rs', ss(s := k)))"
| "handle (rs, ss) s (JoinRoom n c i) =
     (let (es, rs', k) = joinRoom rs (ss s) n c i in (es, rs', ss(s := k)))"
| "handle (rs, ss) s (PlaceBid a) = (let (es, rs') = placeBid rs (ss s) a in (es, rs', ss))"
| "handle (rs, ss) s PackCards = (let (es, rs') = packCards rs (ss s) in (es, rs', ss))"
| "handle (rs, ss) s ResetPool = (let (es, rs') = resetPool rs (ss s) in (es, rs', ss))"
| "handle (rs, ss) s (DeclareWinner w) =
     (let (es, rs') = declareWinner rs (ss s) w in (es, rs', ss))"
| "handle (rs, ss) s (RemovePlayer t) =
     (let (es, rs') = removePlayer rs (ss s) t in (es, rs', ss))"
| "handle (rs, ss) s (ChangeTurn t) = (let (es, rs') = changeTurn rs (ss s) t in (es, rs', ss))"
| "handle (rs, ss) s LeaveRoom =
     (let (es, rs', k) = leaveRoom rs (ss s) in (es, rs', ss(s := k)))"
| "handle (rs, ss) s (DisconnectTimeout c i) =
     (let (es, rs') = disconnectTimeout rs c i (sid (ss s)) in (es, rs', ss))"

text \<open>A run: the requests in the order the server takes them, and everything emitted.\<close>

fun run :: "server \<Rightarrow> (string \<times> request) list \<Rightarrow> emit list \<times> server" where
  "run st [] = ([], st)"
| "run st ((s, q) # qs) =
     (let (es, st') = handle st s q; (es', st'') = run st' qs in (es @ es', st''))"

section \<open>Notions of the specification\<close>

text \<open>
  A failure reply: one \<^verbatim>\<open>error\<close> event, or a \<^verbatim>\<open>roomRejoined\<close> with
  \<^verbatim>\<open>success: false\<close>, and nothing else.
\<close>

fun classified :: "emit list \<Rightarrow> bool" where
  "classified [Error e] = True"
| "classified [RoomRejoined (Some e)] = True"
| "classified es = False"

text \<open>
  The Settlement of the specification, for the winner at index \<open>w\<close>: credit the pool to
  the winner, zero the pool, increment the round, clear the bid counter, clear every
  \<open>inactive\<close> flag, give the turn to the winner. The log is left alone: the two call
  sites write different entries.
\<close>

definition settlement :: "room \<Rightarrow> nat \<Rightarrow> room" where
  "settlement r w =
     r\<lparr>players := map (\<lambda>p. p\<lparr>packed := False\<rparr>)
                    ((players r)[w := (players r ! w)\<lparr>balance := balance (players r ! w) + pool r\<rparr>]),
       pool := 0, round := round r + 1, totalBids := 0, currentTurn := w\<rparr>"

definition eraseLog :: "room \<Rightarrow> room" where
  "eraseLog r = r\<lparr>gameLog := []\<rparr>"

text \<open>
  The bids of room \<open>c\<close> since its pool was last cleared, read off the emitted events:
  a \<^verbatim>\<open>bidPlaced\<close> is emitted by every successful bid and carries its amount; a
  \<^verbatim>\<open>winnerDeclared\<close> is emitted by every settlement, a \<^verbatim>\<open>poolReset\<close> by every reset
  and a \<^verbatim>\<open>roomCreated\<close> by every creation.
\<close>

fun poolCleared :: "string \<Rightarrow> emit \<Rightarrow> bool" where
  "poolCleared c (RoomCreated c') = (c' = c)"
| "poolCleared c (WinnerDeclared c' a) = (c' = c)"
| "poolCleared c (PoolReset c' a) = (c' = c)"
| "poolCleared c e = False"

fun bidOf :: "string \<Rightarrow> emit \<Rightarrow> int" where
  "bidOf c (BidPlaced c' a) = (if c' = c then a else 0)"
| "bidOf c e = 0"


text \<open>
  The pool the events \<open>es\<close> lead to from the pool \<open>p\<close> of room \<open>c\<close>: an event that
  clears the pool sets it to 0, a bid adds its amount.
\<close>

definition poolAfter :: "string \<Rightarrow> int \<Rightarrow> emit list \<Rightarrow> int" where
  "poolAfter c p es = foldl (\<lambda>p e. if poolCleared c e then 0 else p + bidOf c e) p es"

text \<open>
  The preconditions the specification gives the operations of the room state machine
  (its sections 4.2 and 6). \<open>boundRoom\<close> is the room the connection is in, \<open>participant\<close>
  the lookup of a participant by id.
\<close>

definition boundRoom :: "rooms \<Rightarrow> socket \<Rightarrow> room option" where
  "boundRoom rs sock =
     (if falsy (roomCode sock) \<or> falsy (playerId sock) then None else rs (the (roomCode sock)))"

definition participant :: "room \<Rightarrow> string option \<Rightarrow> player option" where
  "participant r i = find (\<lambda>p. Some (pid p) = i) (players r)"

definition ownerRequest :: "rooms \<Rightarrow> socket \<Rightarrow> bool" where
  "ownerRequest rs sock =
     (case boundRoom rs sock of
        None \<Rightarrow> False
      | Some r \<Rightarrow> (case participant r (playerId sock) of None \<Rightarrow> False | Some p \<Rightarrow> isCreator p))"

fun precondition :: "rooms \<Rightarrow> socket \<Rightarrow> request \<Rightarrow> bool" where
  "precondition rs sock (JoinRoom n c i) =
     (\<not> blank n \<and> \<not> falsy c \<and> length (the c) = 4 \<and>
      (case rs (the c) of
         None \<Rightarrow> False
       | Some r \<Rightarrow> \<not> list_ex (\<lambda>p. toLowerCase (name p) = toLowerCase (the n)) (players r)))"
| "precondition rs sock (RejoinRoom c i n) =
     (case c of
        None \<Rightarrow> False
      | Some c' \<Rightarrow> (case rs c' of None \<Rightarrow> False | Some r \<Rightarrow> i \<noteq> None \<and> participant r i \<noteq> None))"
| "precondition rs sock (PlaceBid a) =
     (case boundRoom rs sock of
        None \<Rightarrow> False
      | Some r \<Rightarrow>
          (case participant r (playerId sock) of
             None \<Rightarrow> False
           | Some p \<Rightarrow>
               currentTurn r < length (players r) \<and>
               Some (pid (players r ! currentTurn r)) = playerId sock \<and>
               (case a of None \<Rightarrow> False | Some n \<Rightarrow> 0 < n \<and> n \<le> balance p)))"
| "precondition rs sock PackCards =
     (case boundRoom rs sock of
        None \<Rightarrow> False
      | Some r \<Rightarrow>
          (case findIndex (\<lambda>p. Some (pid p) = playerId sock) (players r) of
             None \<Rightarrow> False
           | Some i \<Rightarrow> i = currentTurn r \<and> \<not> packed (players r ! i)))"
| "precondition rs sock ResetPool = ownerRequest rs sock"
| "precondition rs sock (DeclareWinner w) =
     (ownerRequest rs sock \<and>
      (case boundRoom rs sock of
         None \<Rightarrow> False
       | Some r \<Rightarrow> 0 < pool r \<and> participant r w \<noteq> None))"
| "precondition rs sock (RemovePlayer t) =
     (ownerRequest rs sock \<and>
      (case boundRoom rs sock of
         None \<Rightarrow> False
       | Some r \<Rightarrow> (case participant r t of None \<Rightarrow> False | Some p \<Rightarrow> \<not> isCreator p)))"
| "precondition rs sock (ChangeTurn t) =
     (ownerRequest rs sock \<and>
      (case boundRoom rs sock of
         None \<Rightarrow> False
       | Some r \<Rightarrow> (case participant r t of None \<Rightarrow> False | Some p \<Rightarrow> \<not> packed p)))"
| "precondition rs sock q = True"

text \<open>The operations the specification lists as failing without a change of state.\<close>

fun stateMachineOp :: "request \<Rightarrow> bool" where
  "stateMachineOp (CreateRoom n b c i) = False"
| "stateMachineOp LeaveRoom = False"
| "stateMachineOp (DisconnectTimeout c i) = False"
| "stateMachineOp q = True"

section \<open>Example states\<close>

definition examplePlayer :: "string \<Rightarrow> int \<Rightarrow> bool \<Rightarrow> bool \<Rightarrow> player" where
  "examplePlayer n b c k =
     \<lparr>pid = ''player_'' @ n, socketId = ''socket_'' @ n, name = n, balance = b,
      isCreator = c, packed = k\<rparr>"

definition exampleRoom :: "player list \<Rightarrow> int \<Rightarrow> nat \<Rightarrow> room" where
  "exampleRoom ps p t =
     \<lparr>code = ''4821'', creator = ''Asha'', startingBalance = 1000, players = ps, pool = p,
      currentTurn = t, round = 1, gameLog = [], totalBids = 0\<rparr>"

definition exampleSocket :: "string \<Rightarrow> socket" where
  "exampleSocket n =
     \<lparr>sid = ''socket_'' @ n, playerId = Some (''player_'' @ n), roomCode = Some ''4821''\<rparr>"

text \<open>Two players, both packed, the turn on the first.\<close>

definition allPackedRoom :: room where
  "allPackedRoom =
     exampleRoom [examplePlayer ''Asha'' 1000 True True, examplePlayer ''Bala'' 1000 False True] 0 0"

text \<open>Three players, the second packed, the turn on the first.\<close>

definition middlePackedRoom :: room where
  "middlePackedRoom =
     exampleRoom [examplePlayer ''Asha'' 900 True False, examplePlayer ''Bala'' 1000 False True,
                  examplePlayer ''Chitra'' 1000 False False] 100 0"

text \<open>Three players, nobody packed, the turn on the last.\<close>

definition lastTurnRoom :: room where
  "lastTurnRoom =
     exampleRoom [examplePlayer ''Asha'' 900 True False, examplePlayer ''Bala'' 900 False False,
                  examplePlayer ''Chitra'' 1000 False False] 200 2"

definition exampleRooms :: "room \<Rightarrow> rooms" where
  "exampleRooms r = Map.empty(''4821'' \<mapsto> r)"

text \<open>Two players, an empty pool, the turn on the owner.\<close>

definition emptyPoolRoom :: room where
  "emptyPoolRoom =
     exampleRoom [examplePlayer ''Asha'' 1000 True False, examplePlayer ''Bala'' 1000 False False] 0 0"

text \<open>
  A run from the start of the server: Asha creates room 4821, Bala and Chitra join, Asha
  and Bala bid, Chitra packs, Asha bids and then leaves.
\<close>

definition leaveRun :: "(string \<times> request) list" where
  "leaveRun =
     [(''socket_Asha'', CreateRoom (Some ''Asha'') (Num 1000) ''4821'' ''player_Asha''),
      (''socket_Bala'', JoinRoom (Some ''Bala'') (Some ''4821'') ''player_Bala''),
      (''socket_Chitra'', JoinRoom (Some ''Chitra'') (Some ''4821'') ''player_Chitra''),
      (''socket_Asha'', PlaceBid (Some 100)),
      (''socket_Bala'', PlaceBid (Some 100)),
      (''socket_Chitra'', PackCards),
      (''socket_Asha'', PlaceBid (Some 50)),
      (''socket_Asha'', LeaveRoom)]"

text \<open>A connection that is in no room yet.\<close>

definition devSocket :: socket where
  "devSocket = newSocket ''socket_Dev''"

text \<open>
  A run with a settlement: Asha creates room 4821, Bala joins, Asha bids 100, Bala bids
  50, Asha declares Bala the winner, Bala bids 30.
\<close>

definition settleRun :: "(string \<times> request) list" where
  "settleRun =
     [(''socket_Asha'', CreateRoom (Some ''Asha'') (Num 1000) ''4821'' ''player_Asha''),
      (''socket_Bala'', JoinRoom (Some ''Bala'') (Some ''4821'') ''player_Bala''),
      (''socket_Asha'', PlaceBid (Some 100)),
      (''socket_Bala'', PlaceBid (Some 50)),
      (''socket_Asha'', DeclareWinner (Some ''player_Bala'')),
      (''socket_Bala'', PlaceBid (Some 30))]"

section \<open>Lemmas on the helpers\<close>

lemma findIndex_Some:
  "findIndex P xs = Some i \<Longrightarrow> i < length xs \<and> P (xs ! i) \<and> (\<forall>j<i. \<not> P (xs ! j))"
proof (induction xs arbitrary: i)
  case Nil
  then show ?case by simp
next
  case (Cons x xs)
  show ?case
  proof (cases "P x")
    case True
    with Cons.prems show ?thesis by simp
  next
    case False
    with Cons.prems obtain k where k: "findIndex P xs = Some k" "i = Suc k"
      by (auto split: option.splits)
    from Cons.IH[OF k(1)] False k(2) show ?thesis
      by (auto simp: less_Suc_eq_0_disj)
  qed
qed

lemma findIndex_None: "findIndex P xs = None \<longleftrightarrow> (\<forall>x\<in>set xs. \<not> P x)"
  by (induction xs) (auto split: option.splits)

lemma skipPacked_steps:
  assumes "turn < length ps"
  shows "\<exists>k. skipPacked ps turn a = ((turn + k) mod length ps, a + k)
           \<and> (\<forall>j<k. packed (ps ! ((turn + j) mod length ps)))
           \<and> (a + k < length ps \<longrightarrow> \<not> packed (ps ! ((turn + k) mod length ps)))
           \<and> (a \<le> length ps \<longrightarrow> a + k \<le> length ps)"
  using assms
proof (induction ps turn a rule: skipPacked.induct)
  case (1 ps turn attempts)
  let ?n = "length ps"
  show ?case
  proof (cases "packed (ps ! turn) \<and> attempts < ?n")
    case True
    have "0 < ?n" using "1.prems" by (cases ps) auto
    then have lt: "(turn + 1) mod ?n < ?n" by (rule mod_less_divisor)
    from "1.IH"[OF True lt] obtain k where
      k: "skipPacked ps ((turn + 1) mod ?n) (attempts + 1) = (((turn + 1) mod ?n + k) mod ?n, attempts + 1 + k)"
         "\<forall>j<k. packed (ps ! (((turn + 1) mod ?n + j) mod ?n))"
         "attempts + 1 + k < ?n \<longrightarrow> \<not> packed (ps ! (((turn + 1) mod ?n + k) mod ?n))"
         "attempts + 1 \<le> ?n \<longrightarrow> attempts + 1 + k \<le> ?n"
      by blast
    have shift: "\<And>j. (Suc turn mod ?n + j) mod ?n = Suc (turn + j) mod ?n"
      by (simp add: mod_add_left_eq)
    have eq: "skipPacked ps turn attempts = ((turn + Suc k) mod ?n, attempts + Suc k)"
      using True k(1) by (subst skipPacked.simps) (simp add: shift)
    have all: "\<forall>j<Suc k. packed (ps ! ((turn + j) mod ?n))"
    proof (intro allI impI)
      fix j assume "j < Suc k"
      show "packed (ps ! ((turn + j) mod ?n))"
      proof (cases j)
        case 0
        then show ?thesis using True "1.prems" by simp
      next
        case (Suc j')
        then have "j' < k" using \<open>j < Suc k\<close> by simp
        with k(2) shift Suc show ?thesis by simp
      qed
    qed
    show ?thesis
      apply (rule exI[of _ "Suc k"])
      using eq all k(3) k(4) True by (simp add: shift)
  next
    case False
    then have "skipPacked ps turn attempts = (turn, attempts)"
      by (subst skipPacked.simps) auto
    then show ?thesis
      apply (intro exI[of _ 0])
      using False "1.prems" by auto
  qed
qed

lemma mod_cover:
  assumes "i < (n::nat)"
  shows "\<exists>j<n. (s + j) mod n = i"
proof -
  let ?j = "(i + (n - s mod n)) mod n"
  have "?j < n" using assms by simp
  moreover have "(s + ?j) mod n = i"
  proof -
    have "(s + ?j) mod n = (s mod n + (i + (n - s mod n))) mod n"
      by (simp add: mod_add_eq mod_add_left_eq mod_add_right_eq)
    also have "s mod n + (i + (n - s mod n)) = i + n"
    proof -
      have "0 < n" using assms by simp
      then have "s mod n < n" by (rule mod_less_divisor)
      then show ?thesis by arith
    qed
    also have "(i + n) mod n = i" using assms by simp
    finally show ?thesis .
  qed
  ultimately show ?thesis by blast
qed


lemma skipPacked_all_packed:
  assumes "turn < length ps" and "\<forall>p\<in>set ps. packed p"
  shows "skipPacked ps turn 0 = (turn, length ps)"
proof -
  from skipPacked_steps[OF assms(1), of 0] obtain k where
    k: "skipPacked ps turn 0 = ((turn + k) mod length ps, 0 + k)"
       "0 + k < length ps \<longrightarrow> \<not> packed (ps ! ((turn + k) mod length ps))"
       "0 \<le> length ps \<longrightarrow> 0 + k \<le> length ps"
    by blast
  have pos: "0 < length ps" using assms(1) by (cases ps) auto
  have "\<not> k < length ps"
  proof
    assume "k < length ps"
    with k(2) have "\<not> packed (ps ! ((turn + k) mod length ps))" by simp
    moreover have "(turn + k) mod length ps < length ps" using pos by (rule mod_less_divisor)
    ultimately show False using assms(2) by (metis nth_mem)
  qed
  with k(3) have "k = length ps" by simp
  with k(1) assms(1) show ?thesis by simp
qed

lemma skipPacked_some_active:
  assumes "turn < length ps" and "\<exists>p\<in>set ps. \<not> packed p"
  shows "\<exists>k<length ps. skipPacked ps turn 0 = ((turn + k) mod length ps, k)
           \<and> \<not> packed (ps ! ((turn + k) mod length ps))
           \<and> (\<forall>j<k. packed (ps ! ((turn + j) mod length ps)))"
proof -
  from skipPacked_steps[OF assms(1), of 0] obtain k where
    k: "skipPacked ps turn 0 = ((turn + k) mod length ps, 0 + k)"
       "\<forall>j<k. packed (ps ! ((turn + j) mod length ps))"
       "0 + k < length ps \<longrightarrow> \<not> packed (ps ! ((turn + k) mod length ps))"
       "0 \<le> length ps \<longrightarrow> 0 + k \<le> length ps"
    by blast
  from assms(2) obtain i where i: "i < length ps" "\<not> packed (ps ! i)"
    by (auto simp: in_set_conv_nth)
  from mod_cover[OF i(1), of turn] obtain j where j: "j < length ps" "(turn + j) mod length ps = i"
    by blast
  have "k < length ps"
  proof (rule ccontr)
    assume "\<not> k < length ps"
    with j(1) have "j < k" by simp
    with k(2) j(2) i(2) show False by auto
  qed
  with k show ?thesis by auto
qed

section \<open>Turn advance\<close>

text \<open>
  C2, in the form that holds of the code. In a room with at least one participant, \<open>moveToNextActivePlayer\<close>
  changes nothing but the turn index. When some participant is not packed, the new index
  is the first one, scanning circularly from \<open>(currentTurn + 1) mod N\<close>, whose participant
  is not packed: it is reached after \<open>k < N\<close> steps, its participant is not packed, and
  the participants at the \<open>k\<close> positions before it are all packed. When every participant
  is packed, the new index is \<open>(currentTurn + 1) mod N\<close>.
\<close>

theorem moveToNextActivePlayer_scan:
  assumes "players r \<noteq> []"
  shows "((\<exists>p\<in>set (players r). \<not> packed p) \<longrightarrow>
            (\<exists>k<length (players r).
               currentTurn (moveToNextActivePlayer r)
                 = ((currentTurn r + 1) mod length (players r) + k) mod length (players r)
               \<and> \<not> packed (players r ! currentTurn (moveToNextActivePlayer r))
               \<and> (\<forall>j<k. packed (players r !
                      (((currentTurn r + 1) mod length (players r) + j) mod length (players r))))))
       \<and> ((\<forall>p\<in>set (players r). packed p) \<longrightarrow>
            currentTurn (moveToNextActivePlayer r) = (currentTurn r + 1) mod length (players r))
       \<and> moveToNextActivePlayer r = r\<lparr>currentTurn := currentTurn (moveToNextActivePlayer r)\<rparr>"
proof -
  let ?n = "length (players r)"
  let ?s = "(currentTurn r + 1) mod ?n"
  have pos: "0 < ?n" using assms by simp
  have s: "?s < ?n" using pos by (rule mod_less_divisor)
  have a: "(\<exists>p\<in>set (players r). \<not> packed p) \<longrightarrow>
            (\<exists>k<?n. currentTurn (moveToNextActivePlayer r) = (?s + k) mod ?n
               \<and> \<not> packed (players r ! currentTurn (moveToNextActivePlayer r))
               \<and> (\<forall>j<k. packed (players r ! ((?s + j) mod ?n))))"
  proof
    assume "\<exists>p\<in>set (players r). \<not> packed p"
    from skipPacked_some_active[OF s this] obtain k where
      k: "k < ?n" "skipPacked (players r) ?s 0 = ((?s + k) mod ?n, k)"
         "\<not> packed (players r ! ((?s + k) mod ?n))"
         "\<forall>j<k. packed (players r ! ((?s + j) mod ?n))"
      by blast
    have "currentTurn (moveToNextActivePlayer r) = (?s + k) mod ?n"
      using assms k(1) k(2) by (simp add: moveToNextActivePlayer_def Let_def)
    with k show "\<exists>k<?n. currentTurn (moveToNextActivePlayer r) = (?s + k) mod ?n
               \<and> \<not> packed (players r ! currentTurn (moveToNextActivePlayer r))
               \<and> (\<forall>j<k. packed (players r ! ((?s + j) mod ?n)))"
      by auto
  qed
  have b: "(\<forall>p\<in>set (players r). packed p) \<longrightarrow> currentTurn (moveToNextActivePlayer r) = ?s"
  proof
    assume all: "\<forall>p\<in>set (players r). packed p"
    then have "findIndex (\<lambda>p. \<not> packed p) (players r) = None"
      by (simp add: findIndex_None)
    with skipPacked_all_packed[OF s all] assms
    show "currentTurn (moveToNextActivePlayer r) = ?s"
      by (simp add: moveToNextActivePlayer_def firstActiveOr_def Let_def)
  qed
  have c: "moveToNextActivePlayer r = r\<lparr>currentTurn := currentTurn (moveToNextActivePlayer r)\<rparr>"
    by (simp add: moveToNextActivePlayer_def Let_def split: prod.splits)
  from a b c show ?thesis by blast
qed

theorem moveToNextActivePlayer_scan_witness:
  "players middlePackedRoom \<noteq> [] \<and> (\<exists>p\<in>set (players middlePackedRoom). \<not> packed p)
   \<and> currentTurn (moveToNextActivePlayer middlePackedRoom) = 2
   \<and> players allPackedRoom \<noteq> [] \<and> list_all packed (players allPackedRoom)
   \<and> currentTurn (moveToNextActivePlayer allPackedRoom) = 1"
  using moveToNextActivePlayer_scan[of middlePackedRoom] moveToNextActivePlayer_scan[of allPackedRoom]
  by (simp add: allPackedRoom_def middlePackedRoom_def exampleRoom_def examplePlayer_def
      moveToNextActivePlayer_def skipPacked.simps)

text \<open>
  C2 as stated fails when every participant is packed: with two packed participants and
  the turn on the first, the turn moves to the second instead of staying.
\<close>

theorem moveToNextActivePlayer_all_packed_moves:
  "players allPackedRoom \<noteq> [] \<and> list_all packed (players allPackedRoom)
   \<and> currentTurn allPackedRoom = 0
   \<and> currentTurn (moveToNextActivePlayer allPackedRoom) \<noteq> currentTurn allPackedRoom"
  by (simp add: allPackedRoom_def exampleRoom_def examplePlayer_def moveToNextActivePlayer_def
      skipPacked.simps firstActiveOr_def)

section \<open>The turn after a participant leaves\<close>

text \<open>
  C3. The participant at the turn index should not be packed while some participant is
  active. After the run \<open>leaveRun\<close> from the start of the server the room holds Bala
  (active) and Chitra (packed), and the turn index is 1, on Chitra: \<open>leaveRoom\<close> only
  resets an index that fell off the end and does not call \<open>ensureActiveTurn\<close>.
\<close>

theorem leaveRoom_turn_on_packed:
  "(case fst (snd (run serverStart leaveRun)) ''4821'' of
      None \<Rightarrow> False
    | Some r \<Rightarrow> map name (players r) = [''Bala'', ''Chitra''] \<and> currentTurn r = 1
        \<and> packed (players r ! currentTurn r) \<and> list_ex (\<lambda>p. \<not> packed p) (players r))"
  by code_simp

section \<open>Creating a room\<close>

lemma find_findIndex:
  "find P xs = (case findIndex P xs of None \<Rightarrow> None | Some i \<Rightarrow> Some (xs ! i))"
  by (induction xs) (auto split: option.splits)

lemma not_falsy: "\<not> falsy x \<Longrightarrow> (Some y = x) = (y = the x)"
  by (cases x) (auto simp: falsy_def)

lemma not_blank: "\<not> blank x \<Longrightarrow> \<exists>s. x = Some s \<and> s \<noteq> [] \<and> trim s \<noteq> []"
  by (cases x) (auto simp: blank_def)

text \<open>
  C4, in the form that holds of the code. A \<open>createRoom\<close> request whose owner name passes the handler's test
  stores the new room under the code the generator returned for this call, whatever the
  registry holds: the rooms under every other code are as before, and a room that was
  live under that code is replaced. The handler makes no collision check and no retry.
\<close>

theorem createRoom_overwrites:
  assumes "\<not> blank creatorName"
  shows "\<exists>r. createRoom rs sock creatorName sb genCode genId
             = ([RoomCreated genCode], rs(genCode \<mapsto> r),
                sock\<lparr>playerId := Some genId, roomCode := Some genCode\<rparr>)
           \<and> code r = genCode \<and> map pid (players r) = [genId]"
  using assms
  by (simp add: createRoom_def Let_def addToGameLog_def) (rule exI, rule conjI, rule refl, simp)

theorem createRoom_overwrites_witness:
  "\<not> blank (Some ''Dev'')
   \<and> exampleRooms lastTurnRoom ''4821'' = Some lastTurnRoom
   \<and> map_option (\<lambda>r. map pid (players r))
       (fst (snd (createRoom (exampleRooms lastTurnRoom) devSocket (Some ''Dev'') Undefined
          ''4821'' ''player_Dev'')) ''4821'') = Some [''player_Dev'']"
  using createRoom_overwrites[of "Some ''Dev''" "exampleRooms lastTurnRoom" devSocket Undefined
      "''4821''" "''player_Dev''"]
  by (auto simp: blank_def trim_def is_space_def exampleRooms_def)

text \<open>
  C4 as stated fails: with room 4821 live and the generator returning 4821 again, the
  live room is gone after the request.
\<close>

theorem createRoom_replaces_live_room:
  "\<not> blank (Some ''Dev'')
   \<and> exampleRooms lastTurnRoom ''4821'' = Some lastTurnRoom
   \<and> fst (snd (createRoom (exampleRooms lastTurnRoom) devSocket (Some ''Dev'') Undefined
          ''4821'' ''player_Dev'')) ''4821'' \<noteq> Some lastTurnRoom"
  by (simp add: createRoom_def Let_def addToGameLog_def blank_def trim_def is_space_def
      exampleRooms_def lastTurnRoom_def exampleRoom_def)



section \<open>Rejoining\<close>

text \<open>
  C10. A \<open>rejoinRoom\<close> request whose player name is absent or empty fails with
  \<open>success: false\<close> and changes neither the rooms nor the socket, whatever room code and
  participant id it carries, also when they name a participant of a live room.
\<close>

theorem rejoinRoom_without_name:
  assumes "falsy pName"
  shows "rejoinRoom rs sock rCode pId pName = ([RoomRejoined (Some InvalidRejoinData)], rs, sock)"
  using assms by (simp add: rejoinRoom_def)

theorem rejoinRoom_without_name_witness:
  "falsy None \<and> falsy (Some '''')
   \<and> participant lastTurnRoom (Some ''player_Bala'') = Some (examplePlayer ''Bala'' 900 False False)
   \<and> rejoinRoom (exampleRooms lastTurnRoom) devSocket (Some ''4821'') (Some ''player_Bala'') None
       = ([RoomRejoined (Some InvalidRejoinData)], exampleRooms lastTurnRoom, devSocket)
   \<and> rejoinRoom (exampleRooms lastTurnRoom) devSocket (Some ''4821'') (Some ''player_Bala'') (Some '''')
       = ([RoomRejoined (Some InvalidRejoinData)], exampleRooms lastTurnRoom, devSocket)"
  using rejoinRoom_without_name[of None "exampleRooms lastTurnRoom" devSocket "Some ''4821''" "Some ''player_Bala''"]
    rejoinRoom_without_name[of "Some ''''" "exampleRooms lastTurnRoom" devSocket "Some ''4821''" "Some ''player_Bala''"]
  by (simp add: falsy_def participant_def lastTurnRoom_def exampleRoom_def examplePlayer_def)

section \<open>Declaring a winner\<close>

lemma ownerRequest_find:
  assumes "ownerRequest rs sock"
  shows "\<not> (falsy (roomCode sock) \<or> falsy (playerId sock))
         \<and> (\<exists>r h. rs (the (roomCode sock)) = Some r
               \<and> find (\<lambda>p. pid p = the (playerId sock)) (players r) = Some h \<and> isCreator h)"
proof -
  from assms obtain r where r: "boundRoom rs sock = Some r"
    by (auto simp: ownerRequest_def split: option.splits)
  then have nf: "\<not> (falsy (roomCode sock) \<or> falsy (playerId sock))"
    and rs: "rs (the (roomCode sock)) = Some r"
    by (auto simp: boundRoom_def split: if_splits)
  from nf have eq: "(\<lambda>p. Some (pid p) = playerId sock) = (\<lambda>p. pid p = the (playerId sock))"
    by (auto simp: not_falsy)
  from assms r obtain h where "participant r (playerId sock) = Some h" "isCreator h"
    by (auto simp: ownerRequest_def split: option.splits)
  then have "find (\<lambda>p. pid p = the (playerId sock)) (players r) = Some h \<and> isCreator h"
    by (simp add: participant_def eq)
  with nf rs show ?thesis by blast
qed

text \<open>
  C7, in the form that holds of the code. For a \<open>declareWinner\<close> request of the room's owner: when the winner id
  matches no participant the request fails with the message of class NotFound, whatever
  the pool; when the winner is a participant and the pool is at most 0 it fails with the
  message of class EmptyPool. Either way the rooms are unchanged.
\<close>

theorem declareWinner_errors:
  assumes "ownerRequest rs sock" and "boundRoom rs sock = Some r"
  shows "(participant r winnerId = None \<longrightarrow>
            declareWinner rs sock winnerId = ([Error WinnerNotFound], rs))
       \<and> (participant r winnerId \<noteq> None \<longrightarrow> pool r \<le> 0 \<longrightarrow>
            declareWinner rs sock winnerId = ([Error PoolEmpty], rs))"
proof -
  from ownerRequest_find[OF assms(1)] obtain r' h where
    h: "\<not> (falsy (roomCode sock) \<or> falsy (playerId sock))" "rs (the (roomCode sock)) = Some r'"
       "find (\<lambda>p. pid p = the (playerId sock)) (players r') = Some h" "isCreator h"
    by blast
  with assms(2) have [simp]: "r' = r" by (simp add: boundRoom_def)
  show ?thesis
    using h by (auto simp: declareWinner_def participant_def find_findIndex split: option.splits)
qed

theorem declareWinner_errors_witness:
  "ownerRequest (exampleRooms emptyPoolRoom) (exampleSocket ''Asha'')
   \<and> boundRoom (exampleRooms emptyPoolRoom) (exampleSocket ''Asha'') = Some emptyPoolRoom
   \<and> participant emptyPoolRoom (Some ''player_Zed'') = None
   \<and> declareWinner (exampleRooms emptyPoolRoom) (exampleSocket ''Asha'') (Some ''player_Zed'')
       = ([Error WinnerNotFound], exampleRooms emptyPoolRoom)
   \<and> participant emptyPoolRoom (Some ''player_Bala'') \<noteq> None \<and> pool emptyPoolRoom \<le> 0
   \<and> declareWinner (exampleRooms emptyPoolRoom) (exampleSocket ''Asha'') (Some ''player_Bala'')
       = ([Error PoolEmpty], exampleRooms emptyPoolRoom)"
proof -
  have o: "ownerRequest (exampleRooms emptyPoolRoom) (exampleSocket ''Asha'')"
    by (simp add: ownerRequest_def boundRoom_def participant_def exampleRooms_def
        emptyPoolRoom_def exampleRoom_def examplePlayer_def exampleSocket_def falsy_def)
  have b: "boundRoom (exampleRooms emptyPoolRoom) (exampleSocket ''Asha'') = Some emptyPoolRoom"
    by (simp add: boundRoom_def exampleRooms_def exampleSocket_def falsy_def)
  have z: "participant emptyPoolRoom (Some ''player_Zed'') = None"
    by (simp add: participant_def emptyPoolRoom_def exampleRoom_def examplePlayer_def)
  have p: "participant emptyPoolRoom (Some ''player_Bala'') \<noteq> None"
    by (simp add: participant_def emptyPoolRoom_def exampleRoom_def examplePlayer_def)
  have e: "pool emptyPoolRoom \<le> 0"
    by (simp add: emptyPoolRoom_def exampleRoom_def)
  from declareWinner_errors[OF o b, of "Some ''player_Zed''"]
       declareWinner_errors[OF o b, of "Some ''player_Bala''"] o b z p e
  show ?thesis by simp
qed

text \<open>
  C7 as stated fails: with an empty pool and a winner id that matches nobody, the owner
  gets the message of class NotFound, not that of class EmptyPool.
\<close>

theorem declareWinner_absent_winner_empty_pool:
  "ownerRequest (exampleRooms emptyPoolRoom) (exampleSocket ''Asha'')
   \<and> pool emptyPoolRoom \<le> 0
   \<and> fst (declareWinner (exampleRooms emptyPoolRoom) (exampleSocket ''Asha'') (Some ''player_Zed''))
       = [Error WinnerNotFound]
   \<and> fst (declareWinner (exampleRooms emptyPoolRoom) (exampleSocket ''Asha'') (Some ''player_Zed''))
       \<noteq> [Error PoolEmpty]"
  by (simp add: ownerRequest_def boundRoom_def participant_def declareWinner_def exampleRooms_def
      emptyPoolRoom_def exampleRoom_def examplePlayer_def exampleSocket_def falsy_def)

section \<open>Settlement\<close>

lemma addToGameLog_fields [simp]:
  "players (addToGameLog r m) = players r"
  "pool (addToGameLog r m) = pool r"
  "currentTurn (addToGameLog r m) = currentTurn r"
  "round (addToGameLog r m) = round r"
  "totalBids (addToGameLog r m) = totalBids r"
  "startingBalance (addToGameLog r m) = startingBalance r"
  "code (addToGameLog r m) = code r"
  "creator (addToGameLog r m) = creator r"
  by (simp_all add: addToGameLog_def Let_def)

lemma eraseLog_addToGameLog [simp]: "eraseLog (addToGameLog r m) = eraseLog r"
  by (simp add: eraseLog_def addToGameLog_def Let_def)

lemma moveToNextActivePlayer_turn_only:
  "moveToNextActivePlayer r = r\<lparr>currentTurn := currentTurn (moveToNextActivePlayer r)\<rparr>"
  by (simp add: moveToNextActivePlayer_def Let_def split: prod.splits)

lemma ensureActiveTurn_turn_only:
  "ensureActiveTurn r = r\<lparr>currentTurn := currentTurn (ensureActiveTurn r)\<rparr>"
  by (simp add: ensureActiveTurn_def Let_def split: prod.splits)

lemma moveToNextActivePlayer_fields [simp]:
  "players (moveToNextActivePlayer r) = players r"
  "pool (moveToNextActivePlayer r) = pool r"
  "round (moveToNextActivePlayer r) = round r"
  "totalBids (moveToNextActivePlayer r) = totalBids r"
  "gameLog (moveToNextActivePlayer r) = gameLog r"
  "startingBalance (moveToNextActivePlayer r) = startingBalance r"
  "code (moveToNextActivePlayer r) = code r"
  "creator (moveToNextActivePlayer r) = creator r"
  by (subst moveToNextActivePlayer_turn_only, simp)+

lemma ensureActiveTurn_fields [simp]:
  "players (ensureActiveTurn r) = players r"
  "pool (ensureActiveTurn r) = pool r"
  "round (ensureActiveTurn r) = round r"
  "totalBids (ensureActiveTurn r) = totalBids r"
  "gameLog (ensureActiveTurn r) = gameLog r"
  "startingBalance (ensureActiveTurn r) = startingBalance r"
  "code (ensureActiveTurn r) = code r"
  "creator (ensureActiveTurn r) = creator r"
  by (subst ensureActiveTurn_turn_only, simp)+

lemma ensureActiveTurn_active:
  "currentTurn r < length (players r) \<Longrightarrow> \<not> packed (players r ! currentTurn r)
     \<Longrightarrow> ensureActiveTurn r = r"
  by (simp add: ensureActiveTurn_def)

lemma filter_single_findIndex:
  "filter P xs = [x] \<Longrightarrow> \<exists>w. findIndex P xs = Some w \<and> xs ! w = x"
proof (induction xs)
  case Nil
  then show ?case by simp
next
  case (Cons y ys)
  then show ?case by (cases "P y") auto
qed

lemma findIndex_distinct:
  "distinct (map f xs) \<Longrightarrow> i < length xs \<Longrightarrow> findIndex (\<lambda>p. f p = f (xs ! i)) xs = Some i"
proof (induction xs arbitrary: i)
  case Nil
  then show ?case by simp
next
  case (Cons y ys)
  show ?case
  proof (cases i)
    case 0
    then show ?thesis by simp
  next
    case (Suc j)
    with Cons.prems have j: "j < length ys" and d: "distinct (map f ys)" and "f y \<notin> f ` set ys"
      by auto
    then have "f y \<noteq> f (ys ! j)" by (metis image_eqI nth_mem)
    with Cons.IH[OF d j] Suc show ?thesis by simp
  qed
qed

lemma update_as_map:
  "distinct (map f xs) \<Longrightarrow> k < length xs \<Longrightarrow>
     xs[k := g (xs ! k)] = map (\<lambda>p. if f p = f (xs ! k) then g p else p) xs"
proof (rule nth_equalityI)
  show "length (xs[k := g (xs ! k)]) = length (map (\<lambda>p. if f p = f (xs ! k) then g p else p) xs)"
    by simp
next
  fix i assume d: "distinct (map f xs)" and k: "k < length xs" and "i < length (xs[k := g (xs ! k)])"
  then have i: "i < length xs" by simp
  show "xs[k := g (xs ! k)] ! i = map (\<lambda>p. if f p = f (xs ! k) then g p else p) xs ! i"
  proof (cases "i = k")
    case True
    with k show ?thesis by simp
  next
    case False
    have "f (xs ! i) \<noteq> f (xs ! k)"
    proof
      assume "f (xs ! i) = f (xs ! k)"
      then have "map f xs ! i = map f xs ! k" using i k by simp
      with d i k have "i = k" by (simp add: nth_eq_iff_index_eq del: nth_map)
      with False show False by simp
    qed
    with False i show ?thesis by simp
  qed
qed


lemma findIndex_eqI:
  "i < length xs \<Longrightarrow> P (xs ! i) \<Longrightarrow> \<forall>j<i. \<not> P (xs ! j) \<Longrightarrow> findIndex P xs = Some i"
proof (induction xs arbitrary: i)
  case Nil
  then show ?case by simp
next
  case (Cons y ys)
  show ?case
  proof (cases i)
    case 0
    with Cons.prems show ?thesis by simp
  next
    case (Suc k)
    with Cons.prems have "\<not> P y" by auto
    moreover have "findIndex P ys = Some k"
    proof (rule Cons.IH)
      show "k < length ys" using Cons.prems Suc by simp
      show "P (ys ! k)" using Cons.prems Suc by simp
      show "\<forall>j<k. \<not> P (ys ! j)" using Cons.prems(3) Suc by auto
    qed
    ultimately show ?thesis using Suc by simp
  qed
qed

lemma findIndex_credit:
  assumes "findIndex (\<lambda>p. Some (pid p) = w) ps = Some i"
  shows "findIndex (\<lambda>p. pid p = pid (ps ! i)) (ps[i := (ps ! i)\<lparr>balance := b\<rparr>]) = Some i"
proof (rule findIndex_eqI)
  from findIndex_Some[OF assms]
  have i: "i < length ps" and w: "Some (pid (ps ! i)) = w" and n: "\<forall>j<i. Some (pid (ps ! j)) \<noteq> w"
    by auto
  show "i < length (ps[i := (ps ! i)\<lparr>balance := b\<rparr>])" using i by simp
  show "pid (ps[i := (ps ! i)\<lparr>balance := b\<rparr>] ! i) = pid (ps ! i)" using i by simp
  show "\<forall>j<i. pid (ps[i := (ps ! i)\<lparr>balance := b\<rparr>] ! j) \<noteq> pid (ps ! i)"
    using n w by auto
qed

lemma declareWinner_settles:
  assumes "boundRoom rs sock = Some r" and "declareWinner rs sock w = (es, rs')"
    and "\<not> classified es"
  shows "\<exists>i r'. findIndex (\<lambda>p. Some (pid p) = w) (players r) = Some i
           \<and> rs' = rs(the (roomCode sock) \<mapsto> r') \<and> eraseLog r' = eraseLog (settlement r i)"
proof -
  from assms(1) have nf: "\<not> (falsy (roomCode sock) \<or> falsy (playerId sock))"
    and rs: "rs (the (roomCode sock)) = Some r"
    by (auto simp: boundRoom_def split: if_splits)
  from assms(2,3) nf rs obtain i where i: "findIndex (\<lambda>p. Some (pid p) = w) (players r) = Some i"
    by (auto simp: declareWinner_def split: option.splits if_splits)
  from findIndex_Some[OF i] have il: "i < length (players r)" by simp
  let ?r' = "the (rs' (the (roomCode sock)))"
  have "rs' = rs(the (roomCode sock) \<mapsto> ?r') \<and> eraseLog ?r' = eraseLog (settlement r i)"
    using assms(2,3) nf rs i il findIndex_credit[OF i]
    by (auto simp: declareWinner_def Let_def eraseLog_def settlement_def addToGameLog_def
        split: option.splits if_splits)
  with i show ?thesis by blast
qed


lemma packSettle_single:
  assumes f: "filter (\<lambda>p. \<not> packed p) (players r) = [x]"
    and d: "distinct (map pid (players r))"
  shows "\<exists>w. findIndex (\<lambda>p. pid p = pid x) (players r) = Some w \<and> players r ! w = x
           \<and> fst (packSettle r) = Some (pool r)
           \<and> currentTurn (snd (packSettle r)) = w
           \<and> players (snd (packSettle r))
               = map (\<lambda>p. p\<lparr>packed := False\<rparr>) ((players r)[w := x\<lparr>balance := balance x + pool r\<rparr>])
           \<and> eraseLog (snd (packSettle r))
               = eraseLog (r\<lparr>players := map (\<lambda>p. p\<lparr>packed := False\<rparr>)
                                ((players r)[w := x\<lparr>balance := balance x + pool r\<rparr>]),
                             pool := 0, round := round r + 1, totalBids := 0, currentTurn := w\<rparr>)"
proof -
  from filter_single_findIndex[OF f] obtain w where
    w: "findIndex (\<lambda>p. \<not> packed p) (players r) = Some w" "players r ! w = x"
    by blast
  from findIndex_Some[OF w(1)] have wl: "w < length (players r)" by simp
  from findIndex_distinct[OF d wl] w(2)
  have fw: "findIndex (\<lambda>p. pid p = pid x) (players r) = Some w" by simp
  let ?ps' = "(players r)[w := x\<lparr>balance := balance x + pool r\<rparr>]"
  have d': "distinct (map pid ?ps')"
    using d wl w(2) by (simp add: map_update) (metis list_update_id nth_map wl length_map)
  have "?ps' ! w = x\<lparr>balance := balance x + pool r\<rparr>" using wl by simp
  with findIndex_distinct[OF d', of w] wl
  have fw': "findIndex (\<lambda>p. pid p = pid x) ?ps' = Some w" by simp
  show ?thesis
    using f w fw fw'
    by (simp add: packSettle_def Let_def eraseLog_def addToGameLog_def)
qed


lemma packCards_settles:
  assumes b: "boundRoom rs sock = Some r" and p: "packCards rs sock = (es, rs')"
    and ok: "\<not> classified es" and d: "distinct (map pid (players r))"
    and f: "filter (\<lambda>p. \<not> packed p \<and> Some (pid p) \<noteq> playerId sock) (players r) = [win]"
  shows "\<exists>i r'. findIndex (\<lambda>p. pid p = pid win) (players r) = Some i
           \<and> rs' = rs(the (roomCode sock) \<mapsto> r') \<and> eraseLog r' = eraseLog (settlement r i)"
proof -
  let ?me = "the (playerId sock)"
  let ?ps = "players r"
  from b have nf: "\<not> (falsy (roomCode sock) \<or> falsy (playerId sock))"
    and rs: "rs (the (roomCode sock)) = Some r"
    by (auto simp: boundRoom_def split: if_splits)
  from p ok nf rs obtain k where
    k: "findIndex (\<lambda>p. pid p = ?me) ?ps = Some k" "\<not> packed (?ps ! k)" "currentTurn r = k"
    by (auto simp: packCards_def split: option.splits if_splits)
  from findIndex_Some[OF k(1)] have kl: "k < length ?ps" and kme: "pid (?ps ! k) = ?me"
    by auto
  let ?g = "\<lambda>p. if pid p = pid (?ps ! k) then p\<lparr>packed := True\<rparr> else p"
  let ?ps1 = "?ps[k := (?ps ! k)\<lparr>packed := True\<rparr>]"
  let ?r3 = "moveToNextActivePlayer
               (addToGameLog (r\<lparr>players := ?ps1\<rparr>) (LogPacked (name (?ps ! k))))"
  have res: "rs' = rs(the (roomCode sock) \<mapsto> ensureActiveTurn (snd (packSettle ?r3)))"
    using p nf rs k by (auto simp: packCards_def Let_def split: prod.splits)
  have ps3: "players ?r3 = ?ps1" by simp
  have map1: "?ps1 = map ?g ?ps" by (rule update_as_map[OF d kl])
  have pred: "(\<lambda>p. \<not> packed p) \<circ> ?g = (\<lambda>p. \<not> packed p \<and> Some (pid p) \<noteq> playerId sock)"
    using nf kme by (auto simp: fun_eq_iff not_falsy)
  have "win \<in> set (filter (\<lambda>p. \<not> packed p \<and> Some (pid p) \<noteq> playerId sock) ?ps)"
    using f by simp
  then have win: "\<not> packed win" "pid win \<noteq> ?me" using nf by (auto simp: not_falsy)
  have "filter (\<lambda>p. \<not> packed p) ?ps1 = map ?g (filter ((\<lambda>p. \<not> packed p) \<circ> ?g) ?ps)"
    by (subst map1) (rule filter_map)
  also have "\<dots> = map ?g [win]" by (simp only: pred f)
  also have "\<dots> = [win]" using win kme by simp
  finally have f1: "filter (\<lambda>p. \<not> packed p) (players ?r3) = [win]" by (simp only: ps3)
  have "map pid ?ps1 = map pid ?ps" by (subst map1) simp
  with d have d1: "distinct (map pid (players ?r3))" by (simp only: ps3)
  from packSettle_single[OF f1 d1] obtain w where
    w: "findIndex (\<lambda>p. pid p = pid win) (players ?r3) = Some w" "players ?r3 ! w = win"
       "currentTurn (snd (packSettle ?r3)) = w"
       "players (snd (packSettle ?r3))
          = map (\<lambda>p. p\<lparr>packed := False\<rparr>) ((players ?r3)[w := win\<lparr>balance := balance win + pool ?r3\<rparr>])"
       "eraseLog (snd (packSettle ?r3))
          = eraseLog (?r3\<lparr>players := map (\<lambda>p. p\<lparr>packed := False\<rparr>)
                                ((players ?r3)[w := win\<lparr>balance := balance win + pool ?r3\<rparr>]),
                          pool := 0, round := round ?r3 + 1, totalBids := 0, currentTurn := w\<rparr>)"
    by blast
  from findIndex_Some[OF w(1)] have wl: "w < length ?ps" by simp
  have wk: "w \<noteq> k" using w(2) win(1) kl by auto
  with w(2) wl have pw: "?ps ! w = win" by simp
  from findIndex_distinct[OF d wl] pw
  have fw: "findIndex (\<lambda>p. pid p = pid win) ?ps = Some w" by simp
  have same: "ensureActiveTurn (snd (packSettle ?r3)) = snd (packSettle ?r3)"
    by (rule ensureActiveTurn_active) (simp_all add: w(3) w(4) wl)
  have pl: "map (\<lambda>p. p\<lparr>packed := False\<rparr>) (?ps1[w := win\<lparr>balance := balance win + pool r\<rparr>])
          = map (\<lambda>p. p\<lparr>packed := False\<rparr>) (?ps[w := (?ps ! w)\<lparr>balance := balance (?ps ! w) + pool r\<rparr>])"
    using pw wk kl wl by (intro nth_equalityI) (auto simp: nth_list_update)
  have "eraseLog (snd (packSettle ?r3)) = eraseLog (settlement r w)"
    unfolding w(5)
    by (rule room.equality) (simp_all add: eraseLog_def settlement_def pl)
  with res same fw show ?thesis by auto
qed


lemma settlement_fields:
  assumes "eraseLog r' = eraseLog (settlement r i)" and "i < length (players r)"
  shows "balance (players r' ! i) = balance (players r ! i) + pool r \<and> pool r' = 0
         \<and> round r' = round r + 1 \<and> totalBids r' = 0
         \<and> list_all (\<lambda>p. \<not> packed p) (players r') \<and> currentTurn r' = i"
proof -
  have "players r' = players (eraseLog r')" "pool r' = pool (eraseLog r')"
    "round r' = round (eraseLog r')" "totalBids r' = totalBids (eraseLog r')"
    "currentTurn r' = currentTurn (eraseLog r')"
    by (simp_all add: eraseLog_def)
  then show ?thesis
    using assms(2) unfolding assms(1)
    by (simp add: eraseLog_def settlement_def list_all_iff)
qed

text \<open>
  C8. For a connection in room \<open>r\<close>: a successful \<open>declareWinner\<close> and a successful
  \<open>packCards\<close> that leaves exactly one participant unpacked (\<open>win\<close>, the only unpacked
  participant besides the one who packs; participant ids are distinct) both store, up to
  the log, the room \<open>settlement r i\<close> for the winner's index \<open>i\<close>: the winner's balance is
  credited by the pool of \<open>r\<close>, the pool becomes 0, the round increases by exactly 1, the
  bid counter becomes 0, no participant is packed, and the turn index is \<open>i\<close>.
\<close>

theorem settlement_paths_agree:
  assumes "boundRoom rs sock = Some r"
  shows "(\<not> classified (fst (declareWinner rs sock w)) \<longrightarrow>
            (\<exists>i r'. findIndex (\<lambda>p. Some (pid p) = w) (players r) = Some i
               \<and> snd (declareWinner rs sock w) = rs(the (roomCode sock) \<mapsto> r')
               \<and> eraseLog r' = eraseLog (settlement r i)
               \<and> balance (players r' ! i) = balance (players r ! i) + pool r \<and> pool r' = 0
               \<and> round r' = round r + 1 \<and> totalBids r' = 0
               \<and> list_all (\<lambda>p. \<not> packed p) (players r') \<and> currentTurn r' = i))
       \<and> (\<not> classified (fst (packCards rs sock)) \<and> distinct (map pid (players r))
            \<and> filter (\<lambda>p. \<not> packed p \<and> Some (pid p) \<noteq> playerId sock) (players r) = [win] \<longrightarrow>
            (\<exists>i r'. findIndex (\<lambda>p. pid p = pid win) (players r) = Some i
               \<and> snd (packCards rs sock) = rs(the (roomCode sock) \<mapsto> r')
               \<and> eraseLog r' = eraseLog (settlement r i)
               \<and> balance (players r' ! i) = balance (players r ! i) + pool r \<and> pool r' = 0
               \<and> round r' = round r + 1 \<and> totalBids r' = 0
               \<and> list_all (\<lambda>p. \<not> packed p) (players r') \<and> currentTurn r' = i))"
proof (intro conjI impI)
  assume ok: "\<not> classified (fst (declareWinner rs sock w))"
  have "declareWinner rs sock w = (fst (declareWinner rs sock w), snd (declareWinner rs sock w))"
    by simp
  from declareWinner_settles[OF assms this ok] obtain i r' where
    i: "findIndex (\<lambda>p. Some (pid p) = w) (players r) = Some i"
       "snd (declareWinner rs sock w) = rs(the (roomCode sock) \<mapsto> r')"
       "eraseLog r' = eraseLog (settlement r i)"
    by blast
  from findIndex_Some[OF i(1)] have "i < length (players r)" by simp
  from settlement_fields[OF i(3) this] i
  show "\<exists>i r'. findIndex (\<lambda>p. Some (pid p) = w) (players r) = Some i
               \<and> snd (declareWinner rs sock w) = rs(the (roomCode sock) \<mapsto> r')
               \<and> eraseLog r' = eraseLog (settlement r i)
               \<and> balance (players r' ! i) = balance (players r ! i) + pool r \<and> pool r' = 0
               \<and> round r' = round r + 1 \<and> totalBids r' = 0
               \<and> list_all (\<lambda>p. \<not> packed p) (players r') \<and> currentTurn r' = i"
    by blast
next
  assume h: "\<not> classified (fst (packCards rs sock)) \<and> distinct (map pid (players r))
            \<and> filter (\<lambda>p. \<not> packed p \<and> Some (pid p) \<noteq> playerId sock) (players r) = [win]"
  have "packCards rs sock = (fst (packCards rs sock), snd (packCards rs sock))"
    by simp
  from packCards_settles[OF assms this] h obtain i r' where
    i: "findIndex (\<lambda>p. pid p = pid win) (players r) = Some i"
       "snd (packCards rs sock) = rs(the (roomCode sock) \<mapsto> r')"
       "eraseLog r' = eraseLog (settlement r i)"
    by blast
  from findIndex_Some[OF i(1)] have "i < length (players r)" by simp
  from settlement_fields[OF i(3) this] i
  show "\<exists>i r'. findIndex (\<lambda>p. pid p = pid win) (players r) = Some i
               \<and> snd (packCards rs sock) = rs(the (roomCode sock) \<mapsto> r')
               \<and> eraseLog r' = eraseLog (settlement r i)
               \<and> balance (players r' ! i) = balance (players r ! i) + pool r \<and> pool r' = 0
               \<and> round r' = round r + 1 \<and> totalBids r' = 0
               \<and> list_all (\<lambda>p. \<not> packed p) (players r') \<and> currentTurn r' = i"
    by blast
qed

theorem settlement_paths_agree_witness:
  "boundRoom (exampleRooms middlePackedRoom) (exampleSocket ''Asha'') = Some middlePackedRoom
   \<and> \<not> classified (fst (declareWinner (exampleRooms middlePackedRoom) (exampleSocket ''Asha'')
                            (Some ''player_Chitra'')))
   \<and> \<not> classified (fst (packCards (exampleRooms middlePackedRoom) (exampleSocket ''Asha'')))
   \<and> distinct (map pid (players middlePackedRoom))
   \<and> filter (\<lambda>p. \<not> packed p \<and> Some (pid p) \<noteq> playerId (exampleSocket ''Asha''))
        (players middlePackedRoom) = [examplePlayer ''Chitra'' 1000 False False]
   \<and> map_option eraseLog
        (snd (declareWinner (exampleRooms middlePackedRoom) (exampleSocket ''Asha'')
                (Some ''player_Chitra'')) ''4821'')
       = Some (eraseLog (settlement middlePackedRoom 2))
   \<and> map_option eraseLog
        (snd (packCards (exampleRooms middlePackedRoom) (exampleSocket ''Asha'')) ''4821'')
       = Some (eraseLog (settlement middlePackedRoom 2))"
proof -
  have b: "boundRoom (exampleRooms middlePackedRoom) (exampleSocket ''Asha'') = Some middlePackedRoom"
    by (simp add: boundRoom_def exampleRooms_def exampleSocket_def falsy_def)
  have c1: "\<not> classified (fst (declareWinner (exampleRooms middlePackedRoom) (exampleSocket ''Asha'')
                            (Some ''player_Chitra'')))"
    by code_simp
  have c2: "\<not> classified (fst (packCards (exampleRooms middlePackedRoom) (exampleSocket ''Asha'')))"
    by code_simp
  have d: "distinct (map pid (players middlePackedRoom))"
    by code_simp
  have f: "filter (\<lambda>p. \<not> packed p \<and> Some (pid p) \<noteq> playerId (exampleSocket ''Asha''))
        (players middlePackedRoom) = [examplePlayer ''Chitra'' 1000 False False]"
    by code_simp
  have i1: "findIndex (\<lambda>p. Some (pid p) = Some ''player_Chitra'') (players middlePackedRoom) = Some 2"
    by code_simp
  have i2: "findIndex (\<lambda>p. pid p = pid (examplePlayer ''Chitra'' 1000 False False))
              (players middlePackedRoom) = Some 2"
    by code_simp
  have rc: "the (roomCode (exampleSocket ''Asha'')) = ''4821''"
    by (simp add: exampleSocket_def)
  from settlement_paths_agree[OF b, of "Some ''player_Chitra''" "examplePlayer ''Chitra'' 1000 False False"]
    b c1 c2 d f i1 i2 rc
  show ?thesis by auto
qed

section \<open>The pool and the bids\<close>

lemma poolAfter_simps [simp]:
  "poolAfter c p [] = p"
  "poolAfter c p (e # es) = poolAfter c (if poolCleared c e then 0 else p + bidOf c e) es"
  "poolAfter c p (es @ es') = poolAfter c (poolAfter c p es) es'"
  by (simp_all add: poolAfter_def)























section \<open>The turn index stays in range\<close>

lemma skipPacked_lt:
  assumes "turn < length ps"
  shows "fst (skipPacked ps turn a) < length ps"
proof -
  from skipPacked_steps[OF assms, of a] obtain k where
    "skipPacked ps turn a = ((turn + k) mod length ps, a + k)" by blast
  moreover have "0 < length ps" using assms by (cases ps) auto
  ultimately show ?thesis by simp
qed

lemma firstActiveOr_lt: "turn < length ps \<Longrightarrow> firstActiveOr ps turn < length ps"
  by (auto simp: firstActiveOr_def split: option.splits dest: findIndex_Some)

lemma moveToNextActivePlayer_lt:
  assumes "players r \<noteq> []"
  shows "currentTurn (moveToNextActivePlayer r) < length (players r)"
proof -
  let ?n = "length (players r)"
  have "0 < ?n" using assms by simp
  then have "(currentTurn r + 1) mod ?n < ?n" by (rule mod_less_divisor)
  from skipPacked_lt[OF this, of 0] firstActiveOr_lt[OF this] assms
  show ?thesis
    by (auto simp: moveToNextActivePlayer_def Let_def case_prod_beta firstActiveOr_lt)
qed

lemma ensureActiveTurn_lt:
  assumes "currentTurn r < length (players r)"
  shows "currentTurn (ensureActiveTurn r) < length (players r)"
  using assms skipPacked_lt[OF assms, of 0]
  by (auto simp: ensureActiveTurn_def Let_def case_prod_beta firstActiveOr_lt)

lemma packSettle_lt:
  assumes "currentTurn r < length (players r)"
  shows "currentTurn (snd (packSettle r)) < length (players (snd (packSettle r)))"
  using assms
  by (auto simp: packSettle_def Let_def split: option.splits dest: findIndex_Some)


lemma moveToNextActivePlayer_lt':
  "length (players r) = n \<Longrightarrow> 0 < n \<Longrightarrow> currentTurn (moveToNextActivePlayer r) < n"
  using moveToNextActivePlayer_lt[of r] by auto

lemma ensureActiveTurn_lt':
  "length (players r) = n \<Longrightarrow> currentTurn r < n \<Longrightarrow> currentTurn (ensureActiveTurn r) < n"
  using ensureActiveTurn_lt[of r] by auto

lemma createRoom_turn:
  assumes "fst (snd (createRoom rs sock n b g i)) c = Some r'"
    and "\<forall>r. rs c = Some r \<longrightarrow> currentTurn r < length (players r)"
  shows "currentTurn r' < length (players r')"
  using assms
  by (auto simp: createRoom_def addToGameLog_def Let_def find_findIndex
      split: if_splits option.splits
      dest: findIndex_Some intro!: moveToNextActivePlayer_lt' ensureActiveTurn_lt')

lemma rejoinRoom_turn:
  assumes "fst (snd (rejoinRoom rs sock c0 i n)) c = Some r'"
    and "\<forall>r. rs c = Some r \<longrightarrow> currentTurn r < length (players r)"
  shows "currentTurn r' < length (players r')"
  using assms
  by (auto simp: rejoinRoom_def Let_def find_findIndex
      split: if_splits option.splits
      dest: findIndex_Some intro!: moveToNextActivePlayer_lt' ensureActiveTurn_lt')

lemma joinRoom_turn:
  assumes "fst (snd (joinRoom rs sock n c0 i)) c = Some r'"
    and "\<forall>r. rs c = Some r \<longrightarrow> currentTurn r < length (players r)"
  shows "currentTurn r' < length (players r')"
  using assms
  by (auto simp: joinRoom_def Let_def find_findIndex
      split: if_splits option.splits
      dest: findIndex_Some intro!: moveToNextActivePlayer_lt' ensureActiveTurn_lt')

lemma placeBid_turn:
  assumes "snd (placeBid rs sock a) c = Some r'"
    and "\<forall>r. rs c = Some r \<longrightarrow> currentTurn r < length (players r)"
  shows "currentTurn r' < length (players r')"
  using assms
  by (auto simp: placeBid_def Let_def find_findIndex
      split: if_splits option.splits
      dest: findIndex_Some intro!: moveToNextActivePlayer_lt' ensureActiveTurn_lt')

lemma resetPool_turn:
  assumes "snd (resetPool rs sock) c = Some r'"
    and "\<forall>r. rs c = Some r \<longrightarrow> currentTurn r < length (players r)"
  shows "currentTurn r' < length (players r')"
  using assms
  by (auto simp: resetPool_def Let_def find_findIndex
      split: if_splits option.splits
      dest: findIndex_Some intro!: moveToNextActivePlayer_lt' ensureActiveTurn_lt')

lemma declareWinner_turn:
  assumes "snd (declareWinner rs sock w) c = Some r'"
    and "\<forall>r. rs c = Some r \<longrightarrow> currentTurn r < length (players r)"
  shows "currentTurn r' < length (players r')"
  using assms
  by (auto simp: declareWinner_def Let_def find_findIndex
      split: if_splits option.splits
      dest: findIndex_Some intro!: moveToNextActivePlayer_lt' ensureActiveTurn_lt')

lemma changeTurn_turn:
  assumes "snd (changeTurn rs sock t) c = Some r'"
    and "\<forall>r. rs c = Some r \<longrightarrow> currentTurn r < length (players r)"
  shows "currentTurn r' < length (players r')"
  using assms
  by (auto simp: changeTurn_def Let_def find_findIndex
      split: if_splits option.splits
      dest: findIndex_Some intro!: moveToNextActivePlayer_lt' ensureActiveTurn_lt')


lemma length_splice1: "i < length xs \<Longrightarrow> length (splice1 i xs) = length xs - 1"
  by (auto simp: splice1_def)

lemma removeAt_turn:
  assumes "snd (removeAt rs rc r i l) c = Some r'" and "rs rc = Some r"
    and "\<forall>r. rs c = Some r \<longrightarrow> currentTurn r < length (players r)"
  shows "currentTurn r' < length (players r')"
  using assms by (auto simp: removeAt_def Let_def split: if_splits)

lemma leaveRoom_turn:
  assumes "fst (snd (leaveRoom rs sock)) c = Some r'"
    and "\<forall>r. rs c = Some r \<longrightarrow> currentTurn r < length (players r)"
  shows "currentTurn r' < length (players r')"
  using assms
  by (auto simp: leaveRoom_def case_prod_beta split: if_splits option.splits
      intro: removeAt_turn)

lemma disconnectTimeout_turn:
  assumes "snd (disconnectTimeout rs rc i s) c = Some r'"
    and "\<forall>r. rs c = Some r \<longrightarrow> currentTurn r < length (players r)"
  shows "currentTurn r' < length (players r')"
  using assms
  by (auto simp: disconnectTimeout_def split: if_splits option.splits intro: removeAt_turn)

lemma removePlayer_turn:
  assumes "snd (removePlayer rs sock t) c = Some r'"
    and "\<forall>r. rs c = Some r \<longrightarrow> currentTurn r < length (players r)"
  shows "currentTurn r' < length (players r')"
proof -
  have two: "length ps - 1 > 0 \<and> splice1 i ps \<noteq> []"
    if "findIndex P ps = Some j" "findIndex Q ps = Some i" "isCreator (ps ! j)" "\<not> isCreator (ps ! i)"
    for P Q j i and ps :: "player list"
  proof -
    from that findIndex_Some[of P ps j] findIndex_Some[of Q ps i]
    have "i \<noteq> j" "i < length ps" "j < length ps" by auto
    then have "length ps - 1 > 0" by arith
    with length_splice1[OF \<open>i < length ps\<close>] show ?thesis by auto
  qed
  show ?thesis
    using assms
    by (auto simp: removePlayer_def Let_def find_findIndex length_splice1
        split: if_splits option.splits dest: findIndex_Some two)
qed

lemma packCards_turn:
  assumes "snd (packCards rs sock) c = Some r'"
    and "\<forall>r. rs c = Some r \<longrightarrow> currentTurn r < length (players r)"
  shows "currentTurn r' < length (players r')"
proof -
  have "currentTurn (ensureActiveTurn (snd (packSettle (moveToNextActivePlayer r0))))
          < length (players (ensureActiveTurn (snd (packSettle (moveToNextActivePlayer r0)))))"
    if "players r0 \<noteq> []" for r0
  proof -
    from that have "currentTurn (moveToNextActivePlayer r0) < length (players (moveToNextActivePlayer r0))"
      by (simp add: moveToNextActivePlayer_lt)
    from ensureActiveTurn_lt[OF packSettle_lt[OF this]] show ?thesis by simp
  qed
  note key = this
  show ?thesis
    using assms
    by (auto simp: packCards_def Let_def case_prod_beta split: if_splits option.splits
        dest!: findIndex_Some intro!: key)
qed


lemma handle_turn:
  assumes "fst (snd (handle (rs, ss) s q)) c = Some r'"
    and "\<forall>r. rs c = Some r \<longrightarrow> currentTurn r < length (players r)"
  shows "currentTurn r' < length (players r')"
proof (cases q)
  case (CreateRoom n b g i)
  with assms createRoom_turn[of rs "ss s" n b g i c r'] show ?thesis
    by (simp add: case_prod_beta)
next
  case (RejoinRoom c0 i n)
  with assms rejoinRoom_turn[of rs "ss s" c0 i n c r'] show ?thesis
    by (simp add: case_prod_beta)
next
  case (JoinRoom n c0 i)
  with assms joinRoom_turn[of rs "ss s" n c0 i c r'] show ?thesis
    by (simp add: case_prod_beta)
next
  case (PlaceBid a)
  with assms placeBid_turn[of rs "ss s" a c r'] show ?thesis
    by (simp add: case_prod_beta)
next
  case PackCards
  with assms packCards_turn[of rs "ss s" c r'] show ?thesis
    by (simp add: case_prod_beta)
next
  case ResetPool
  with assms resetPool_turn[of rs "ss s" c r'] show ?thesis
    by (simp add: case_prod_beta)
next
  case (DeclareWinner w)
  with assms declareWinner_turn[of rs "ss s" w c r'] show ?thesis
    by (simp add: case_prod_beta)
next
  case (RemovePlayer t)
  with assms removePlayer_turn[of rs "ss s" t c r'] show ?thesis
    by (simp add: case_prod_beta)
next
  case (ChangeTurn t)
  with assms changeTurn_turn[of rs "ss s" t c r'] show ?thesis
    by (simp add: case_prod_beta)
next
  case LeaveRoom
  with assms leaveRoom_turn[of rs "ss s" c r'] show ?thesis
    by (simp add: case_prod_beta)
next
  case (DisconnectTimeout c0 i)
  with assms disconnectTimeout_turn[of rs c0 i "sid (ss s)" c r'] show ?thesis
    by (simp add: case_prod_beta)
qed

lemma run_turn:
  assumes "\<forall>c r. fst st c = Some r \<longrightarrow> currentTurn r < length (players r)"
  shows "\<forall>c r. fst (snd (run st qs)) c = Some r \<longrightarrow> currentTurn r < length (players r)"
  using assms
proof (induction qs arbitrary: st)
  case Nil
  then show ?case by simp
next
  case (Cons sq qs)
  obtain s q where sq: "sq = (s, q)" by (cases sq)
  obtain rs ss where st: "st = (rs, ss)" by (cases st)
  let ?h = "handle (rs, ss) s q"
  have step: "\<forall>c r. fst (snd ?h) c = Some r \<longrightarrow> currentTurn r < length (players r)"
  proof (intro allI impI)
    fix c r assume r: "fst (snd ?h) c = Some r"
    have "\<forall>r0. rs c = Some r0 \<longrightarrow> currentTurn r0 < length (players r0)"
      using Cons.prems st by simp
    from handle_turn[OF r this] show "currentTurn r < length (players r)" .
  qed
  have eq: "run st (sq # qs) = (fst ?h @ fst (run (snd ?h) qs), snd (run (snd ?h) qs))"
    by (simp add: sq st case_prod_beta)
  from Cons.IH[OF step] show ?case unfolding eq fst_conv snd_conv .
qed

lemma reachable_turn:
  assumes "run serverStart qs = (es, rs, ss)" and "rs c = Some r"
  shows "currentTurn r < length (players r)"
proof -
  have "\<forall>c r. fst serverStart c = Some r \<longrightarrow> currentTurn r < length (players r)"
    by (simp add: serverStart_def)
  from run_turn[OF this, of qs] assms show ?thesis by simp
qed

section \<open>Failed operations\<close>

lemma rejoinRoom_fails:
  "classified (fst (rejoinRoom rs sock c i n)) \<Longrightarrow> fst (snd (rejoinRoom rs sock c i n)) = rs"
  by (auto simp: rejoinRoom_def split: if_splits option.splits)

lemma joinRoom_fails:
  "classified (fst (joinRoom rs sock n c i)) \<Longrightarrow> fst (snd (joinRoom rs sock n c i)) = rs"
  by (auto simp: joinRoom_def Let_def split: if_splits option.splits)

lemma placeBid_fails:
  "classified (fst (placeBid rs sock a)) \<Longrightarrow> snd (placeBid rs sock a) = rs"
  by (auto simp: placeBid_def Let_def split: if_splits option.splits)

lemma packCards_fails:
  "classified (fst (packCards rs sock)) \<Longrightarrow> snd (packCards rs sock) = rs"
  by (auto simp: packCards_def Let_def case_prod_beta split: if_splits option.splits)

lemma resetPool_fails:
  "classified (fst (resetPool rs sock)) \<Longrightarrow> snd (resetPool rs sock) = rs"
  by (auto simp: resetPool_def Let_def split: if_splits option.splits)

lemma declareWinner_fails:
  "classified (fst (declareWinner rs sock w)) \<Longrightarrow> snd (declareWinner rs sock w) = rs"
  by (auto simp: declareWinner_def Let_def split: if_splits option.splits)

lemma removePlayer_fails:
  "classified (fst (removePlayer rs sock t)) \<Longrightarrow> snd (removePlayer rs sock t) = rs"
  by (auto simp: removePlayer_def Let_def split: if_splits option.splits)

lemma changeTurn_fails:
  "classified (fst (changeTurn rs sock t)) \<Longrightarrow> snd (changeTurn rs sock t) = rs"
  by (auto simp: changeTurn_def Let_def split: if_splits option.splits)


lemma joinRoom_pre:
  "\<not> precondition rs sock (JoinRoom n c i) \<Longrightarrow> classified (fst (joinRoom rs sock n c i))"
  by (auto simp: joinRoom_def Let_def split: if_splits option.splits)

lemma rejoinRoom_pre:
  "\<not> precondition rs sock (RejoinRoom c i n) \<Longrightarrow> classified (fst (rejoinRoom rs sock c i n))"
  by (auto simp: rejoinRoom_def participant_def find_findIndex falsy_def
      split: if_splits option.splits)

lemma placeBid_pre:
  assumes "\<not> precondition rs sock (PlaceBid a)"
    and "\<forall>c r. rs c = Some r \<longrightarrow> currentTurn r < length (players r)"
  shows "classified (fst (placeBid rs sock a))"
  using assms
  by (auto simp: placeBid_def Let_def boundRoom_def participant_def find_findIndex not_falsy
      split: if_splits option.splits)

lemma packCards_pre:
  "\<not> precondition rs sock PackCards \<Longrightarrow> classified (fst (packCards rs sock))"
  by (auto simp: packCards_def Let_def boundRoom_def not_falsy case_prod_beta
      split: if_splits option.splits)

lemma ownerRequest_iff:
  "ownerRequest rs sock \<longleftrightarrow>
     \<not> (falsy (roomCode sock) \<or> falsy (playerId sock))
     \<and> (\<exists>r h. rs (the (roomCode sock)) = Some r
           \<and> find (\<lambda>p. pid p = the (playerId sock)) (players r) = Some h \<and> isCreator h)"
  by (auto simp: ownerRequest_def boundRoom_def participant_def not_falsy split: option.splits)

lemma resetPool_pre:
  "\<not> precondition rs sock ResetPool \<Longrightarrow> classified (fst (resetPool rs sock))"
  by (auto simp: resetPool_def Let_def ownerRequest_iff split: if_splits option.splits)

lemma declareWinner_pre:
  "\<not> precondition rs sock (DeclareWinner w) \<Longrightarrow> classified (fst (declareWinner rs sock w))"
  by (auto simp: declareWinner_def Let_def ownerRequest_iff boundRoom_def participant_def
      find_findIndex split: if_splits option.splits)

lemma removePlayer_pre:
  "\<not> precondition rs sock (RemovePlayer t) \<Longrightarrow> classified (fst (removePlayer rs sock t))"
  by (auto simp: removePlayer_def Let_def ownerRequest_iff boundRoom_def participant_def
      find_findIndex split: if_splits option.splits)

lemma changeTurn_pre:
  "\<not> precondition rs sock (ChangeTurn t) \<Longrightarrow> classified (fst (changeTurn rs sock t))"
  by (auto simp: changeTurn_def Let_def ownerRequest_iff boundRoom_def participant_def
      find_findIndex split: if_splits option.splits)


text \<open>
  C5. In every state the server reaches from its start, for each operation of the room
  state machine (join, rejoin, place bid, pack, reset pool, declare winner, remove
  participant, change turn): when a precondition the specification gives the operation is
  violated, the handler emits a failure reply and nothing else; and whenever it emits a
  failure reply, the rooms map, and with it every field of every room, is as it was
  before the call.
\<close>

theorem failed_operation_keeps_rooms:
  assumes "run serverStart qs = (es, rs, ss)" and "stateMachineOp q"
  shows "(\<not> precondition rs (ss s) q \<longrightarrow> classified (fst (handle (rs, ss) s q)))
       \<and> (classified (fst (handle (rs, ss) s q)) \<longrightarrow> fst (snd (handle (rs, ss) s q)) = rs)"
proof -
  have turn: "\<forall>c r. rs c = Some r \<longrightarrow> currentTurn r < length (players r)"
    using reachable_turn[OF assms(1)] by blast
  show ?thesis
  proof (cases q)
    case (CreateRoom n b g i)
    with assms(2) show ?thesis by simp
  next
    case (RejoinRoom c i n)
    with rejoinRoom_pre[of rs "ss s" c i n] rejoinRoom_fails[of rs "ss s" c i n]
    show ?thesis by (simp add: case_prod_beta)
  next
    case (JoinRoom n c i)
    with joinRoom_pre[of rs "ss s" n c i] joinRoom_fails[of rs "ss s" n c i]
    show ?thesis by (simp add: case_prod_beta)
  next
    case (PlaceBid a)
    with placeBid_pre[OF _ turn, of "ss s" a] placeBid_fails[of rs "ss s" a]
    show ?thesis by (simp add: case_prod_beta)
  next
    case PackCards
    with packCards_pre[of rs "ss s"] packCards_fails[of rs "ss s"]
    show ?thesis by (simp add: case_prod_beta)
  next
    case ResetPool
    with resetPool_pre[of rs "ss s"] resetPool_fails[of rs "ss s"]
    show ?thesis by (simp add: case_prod_beta)
  next
    case (DeclareWinner w)
    with declareWinner_pre[of rs "ss s" w] declareWinner_fails[of rs "ss s" w]
    show ?thesis by (simp add: case_prod_beta)
  next
    case (RemovePlayer t)
    with removePlayer_pre[of rs "ss s" t] removePlayer_fails[of rs "ss s" t]
    show ?thesis by (simp add: case_prod_beta)
  next
    case (ChangeTurn t)
    with changeTurn_pre[of rs "ss s" t] changeTurn_fails[of rs "ss s" t]
    show ?thesis by (simp add: case_prod_beta)
  next
    case LeaveRoom
    with assms(2) show ?thesis by simp
  next
    case (DisconnectTimeout c i)
    with assms(2) show ?thesis by simp
  qed
qed

theorem failed_operation_keeps_rooms_witness:
  "stateMachineOp (PlaceBid (Some 10))
   \<and> \<not> precondition (fst (snd (run serverStart settleRun)))
         (snd (snd (run serverStart settleRun)) ''socket_Bala'') (PlaceBid (Some 10))
   \<and> fst (handle (snd (run serverStart settleRun)) ''socket_Bala'' (PlaceBid (Some 10)))
       = [Error NotYourTurn]
   \<and> fst (snd (handle (snd (run serverStart settleRun)) ''socket_Bala'' (PlaceBid (Some 10))))
       = fst (snd (run serverStart settleRun))"
proof -
  have op: "stateMachineOp (PlaceBid (Some 10))" by simp
  have pre: "\<not> precondition (fst (snd (run serverStart settleRun)))
         (snd (snd (run serverStart settleRun)) ''socket_Bala'') (PlaceBid (Some 10))"
    by code_simp
  have err: "fst (handle (snd (run serverStart settleRun)) ''socket_Bala'' (PlaceBid (Some 10)))
       = [Error NotYourTurn]"
    by code_simp
  have r: "run serverStart settleRun
          = (fst (run serverStart settleRun), fst (snd (run serverStart settleRun)),
             snd (snd (run serverStart settleRun)))"
    by simp
  have st: "(fst (snd (run serverStart settleRun)), snd (snd (run serverStart settleRun)))
          = snd (run serverStart settleRun)"
    by simp
  from failed_operation_keeps_rooms[OF r op, of "''socket_Bala''"] pre err
  show ?thesis unfolding st by simp
qed

section \<open>Removing a participant\<close>

text \<open>
  The turn index after the owner removes a participant who is not an owner: 0 when the
  old index was on the last position or beyond, else one less when the removed index was
  below it, else unchanged. So a removal above the turn index keeps it, and a removal
  below a turn index that is not on the last position decrements it.
\<close>

lemma removePlayer_turn_rule:
  assumes "ownerRequest rs sock" and "boundRoom rs sock = Some r"
    and "findIndex (\<lambda>p. Some (pid p) = t) (players r) = Some i"
    and "\<not> isCreator (players r ! i)"
  shows "map_option (\<lambda>r'. (players r', currentTurn r'))
           (snd (removePlayer rs sock t) (the (roomCode sock)))
         = Some (splice1 i (players r),
                 if currentTurn r \<ge> length (players r) - 1 then 0
                 else if i < currentTurn r then currentTurn r - 1 else currentTurn r)"
proof -
  from ownerRequest_find[OF assms(1)] obtain r0 h where
    h: "\<not> (falsy (roomCode sock) \<or> falsy (playerId sock))" "rs (the (roomCode sock)) = Some r0"
       "find (\<lambda>p. pid p = the (playerId sock)) (players r0) = Some h" "isCreator h"
    by blast
  with assms(2) have [simp]: "r0 = r" by (simp add: boundRoom_def)
  from findIndex_Some[OF assms(3)] have "i < length (players r)" by simp
  then show ?thesis
    using h assms(3,4)
    by (simp add: removePlayer_def Let_def find_findIndex length_splice1)
qed

lemma removePlayer_turn_kept:
  assumes "ownerRequest rs sock" and "boundRoom rs sock = Some r"
    and "findIndex (\<lambda>p. Some (pid p) = t) (players r) = Some i"
    and "\<not> isCreator (players r ! i)"
  shows "(currentTurn r < i \<longrightarrow>
            map_option currentTurn (snd (removePlayer rs sock t) (the (roomCode sock)))
              = Some (currentTurn r))
       \<and> (i < currentTurn r \<and> currentTurn r < length (players r) - 1 \<longrightarrow>
            map_option currentTurn (snd (removePlayer rs sock t) (the (roomCode sock)))
              = Some (currentTurn r - 1))"
proof -
  from findIndex_Some[OF assms(3)] have "i < length (players r)" by simp
  with removePlayer_turn_rule[OF assms] show ?thesis by (auto split: option.splits)
qed

text \<open>
  C1. Removing a participant whose index is below the turn index should decrement the
  turn index by exactly one. The handler tests \<^verbatim>\<open>currentTurn >= players.length\<close> first,
  on the index as it was before the removal, and decrements only in the other branch:
  with the turn on the last of three participants, the owner's removal of the second one
  sets the turn index to 0 instead of 1.
\<close>

theorem removePlayer_last_turn_resets:
  "map_option (\<lambda>r. (map name (players r), currentTurn r))
     (snd (removePlayer (exampleRooms lastTurnRoom) (exampleSocket ''Asha'') (Some ''player_Bala''))
        ''4821'')
   = Some ([''Asha'', ''Chitra''], 0)"
  by (simp add: removePlayer_def exampleRooms_def lastTurnRoom_def exampleRoom_def
      examplePlayer_def exampleSocket_def falsy_def splice1_def addToGameLog_def Let_def)

end
